theory Spec2Isabelle
  imports
    Main
    "HOL-Library.Word"
    "HOL-Library.Multiset"
    "HOL-Library.Char_ord"
    "HOL-Library.List_Lexorder"
begin

section \<open>Shared vocabulary: errors, panics, effects\<close>

text \<open>
  A Go \<^verbatim>\<open>error\<close> is an interface value.  \<^verbatim>\<open>fmt.Errorf\<close> allocates a fresh value on every
  call, so an error made inside these packages is never the same value as one handed back
  by a collaborator (the signing client, the cache, the listers).  The constructors keep the
  origins apart: two for the errors the packages make themselves, one wrapping whatever a
  collaborator returned.  A collaborator's error is known by its message only.
\<close>

type_synonym cerr = string

datatype error =
    ErrAccountNotInitialized    \<comment> \<open>\<^verbatim>\<open>acme: account was not properly initialized\<close>\<close>
  | ErrInvalidPort int          \<comment> \<open>\<^verbatim>\<open>invalid port number: %d\<close>\<close>
  | ErrCollaborator cerr

text \<open>A run-time panic ends the call without a return value.\<close>

datatype panic = NilDereference | IndexOutOfRange | TypeAssertion

type_synonym bytes = string

section \<open>pkg/acme/signer.go\<close>

subsection \<open>Data\<close>

text \<open>
  \<^verbatim>\<open>x509.Certificate\<close> is read at two fields only.  Instants and durations are integers
  (nanoseconds); \<^verbatim>\<open>Time.Before\<close> is the strict order and \<^verbatim>\<open>Time.Add\<close> is addition.
  The cache hands back either nil or a parsed pair, so \<^verbatim>\<open>Crt\<close> is not optional here.
  The key is never read; it is kept as bytes.
\<close>

record Certificate =
  NotAfter :: int
  DNSNames :: "string list"

record TLSSecret =
  Crt :: Certificate
  Key :: bytes

record Account =
  Endpoint :: string
  Emails :: string
  TermsAgreed :: bool

text \<open>
  The collaborators act on a world \<open>'w\<close> that the model does not look into: the cluster
  behind the cache, the certificate authority behind the client, the clock.  A call that
  may change the world returns the new one.
\<close>

datatype 'w Client =
  Client (Sign: "'w \<Rightarrow> string list \<Rightarrow> (cerr + bytes \<times> bytes) \<times> 'w")

record 'w Env =
  Now :: "'w \<Rightarrow> int"
  GetTLSSecretContent :: "'w \<Rightarrow> string \<Rightarrow> TLSSecret option"
  SetTLSSecretContent :: "'w \<Rightarrow> string \<Rightarrow> bytes \<Rightarrow> bytes \<Rightarrow> cerr option \<times> 'w"
  NewClient :: "'w \<Rightarrow> Account \<Rightarrow> (cerr + 'w Client) \<times> 'w"

record 'w signer =
  account :: Account
  client :: "'w Client option"
  expiring :: int
  verifyCount :: int

text \<open>What the signer does to the outside, in order: log lines and collaborator calls.\<close>

datatype why = WhyNotExist | WhyExpires int | WhyAddedDomains

datatype logline =
    LoadingAccount Account
  | ErrorCreatingClient cerr
  | Authorizing int string string string why
  | NewCertificateIssued int string string
  | ErrorStoring int string string cerr
  | ErrorSigning int string string cerr
  | SkippingSign string string

datatype event =
    LogInfo logline
  | LogInfoV nat logline
  | LogWarn logline
  | CallNewClient Account
  | CallSign "string list"
  | CallSetTLSSecretContent string bytes bytes

subsection \<open>Library functions used by the signer\<close>

text \<open>\<^verbatim>\<open>strings.Join(elems, ",")\<close>.\<close>

fun Join :: "string list \<Rightarrow> string" where
  "Join [] = []"
| "Join [x] = x"
| "Join (x # y # ys) = x @ '','' @ Join (y # ys)"

text \<open>
  \<^verbatim>\<open>strings.Split(s, ",")\<close>: the pieces between the commas; a string without a comma,
  the empty one too, gives a single piece.  \<open>cur\<close> is the piece being read, reversed.
\<close>

fun SplitFrom :: "string \<Rightarrow> string \<Rightarrow> string list" where
  "SplitFrom cur [] = [rev cur]"
| "SplitFrom cur (c # cs) =
     (if c = CHR '','' then rev cur # SplitFrom [] cs else SplitFrom (c # cur) cs)"

definition Split :: "string \<Rightarrow> string list" where
  "Split s = SplitFrom [] s"

subsection \<open>match\<close>

text \<open>
  The inner loop of \<^verbatim>\<open>match\<close>: it runs over all of \<^verbatim>\<open>dnsnames\<close> (there is no break) and
  carries the flag \<^verbatim>\<open>found\<close>.
\<close>

fun match_scan :: "string \<Rightarrow> string list \<Rightarrow> bool \<Rightarrow> bool" where
  "match_scan domain [] found = found"
| "match_scan domain (dns # rest) found =
     match_scan domain rest (if domain = dns then True else found)"

fun match :: "string list \<Rightarrow> string list \<Rightarrow> bool" where
  "match [] dnsnames = True"
| "match (domain # rest) dnsnames =
     (if \<not> match_scan domain dnsnames False then False else match rest dnsnames)"

subsection \<open>AcmeAccount, AcmeConfig, HasAccount\<close>

definition normalize_endpoint :: "string \<Rightarrow> string" where
  "normalize_endpoint endpoint =
     (if endpoint = ''v2'' \<or> endpoint = ''v02'' then ''https://acme-v02.api.letsencrypt.org''
      else if endpoint = ''v2-staging'' \<or> endpoint = ''v02-staging''
        then ''https://acme-staging-v02.api.letsencrypt.org''
      else endpoint)"

definition AcmeAccount ::
  "'w Env \<Rightarrow> 'w signer \<Rightarrow> 'w \<Rightarrow> string \<Rightarrow> string \<Rightarrow> bool \<Rightarrow> 'w signer \<times> 'w \<times> event list" where
  "AcmeAccount env s w endpoint0 emails termsAgreed =
     (let endpoint = normalize_endpoint endpoint0;
          acc = \<lparr>Endpoint = endpoint, Emails = emails, TermsAgreed = termsAgreed\<rparr>
      in if account s = acc then (s, w, [])
         else
           let s1 = s\<lparr>client := None\<rparr>
           in if endpoint = [] \<and> emails = [] \<and> \<not> termsAgreed then (s1, w, [])
              else
                (case NewClient env w acc of
                   (Inl err, w') \<Rightarrow>
                     (s1, w', [LogInfo (LoadingAccount acc), CallNewClient acc,
                               LogWarn (ErrorCreatingClient err)])
                 | (Inr c, w') \<Rightarrow>
                     (s1\<lparr>account := acc, client := Some c\<rparr>, w',
                      [LogInfo (LoadingAccount acc), CallNewClient acc])))"

definition AcmeConfig :: "'w signer \<Rightarrow> int \<Rightarrow> 'w signer" where
  "AcmeConfig s d = s\<lparr>expiring := d\<rparr>"

definition HasAccount :: "'w signer \<Rightarrow> bool" where
  "HasAccount s = (client s \<noteq> None)"

subsection \<open>verify and Notify\<close>

text \<open>
  \<^verbatim>\<open>verify\<close> returns the error (nil is \<open>None\<close>), the signer and the world as it leaves
  them, and what it did.  Calling \<^verbatim>\<open>Sign\<close> on a nil client is a nil dereference.
\<close>

type_synonym 'w outcome = "panic + (error option \<times> 'w signer \<times> 'w \<times> event list)"

definition needs_issue :: "int \<Rightarrow> TLSSecret option \<Rightarrow> string list \<Rightarrow> bool" where
  "needs_issue duedate tls domains =
     (case tls of
        None \<Rightarrow> True
      | Some t \<Rightarrow> NotAfter (Crt t) < duedate \<or> \<not> match domains (DNSNames (Crt t)))"

definition why_issue :: "int \<Rightarrow> TLSSecret option \<Rightarrow> why" where
  "why_issue duedate tls =
     (case tls of
        None \<Rightarrow> WhyNotExist
      | Some t \<Rightarrow>
          if NotAfter (Crt t) < duedate then WhyExpires (NotAfter (Crt t))
          else WhyAddedDomains)"

definition verify :: "'w Env \<Rightarrow> 'w signer \<Rightarrow> 'w \<Rightarrow> string \<Rightarrow> string list \<Rightarrow> 'w outcome" where
  "verify env s w secretName domains =
     (let duedate = Now env w + expiring s;
          tls = GetTLSSecretContent env w secretName;
          strdomains = Join domains
      in if needs_issue duedate tls domains then
           let s1 = s\<lparr>verifyCount := verifyCount s + 1\<rparr>;
               authorizing = LogInfoV 2 (Authorizing (verifyCount s1) secretName strdomains
                                (Endpoint (account s1)) (why_issue duedate tls))
           in (case client s1 of
                 None \<Rightarrow> Inl NilDereference
               | Some c \<Rightarrow>
                   (case Sign c w domains of
                      (Inr (crt, key), w1) \<Rightarrow>
                        (case SetTLSSecretContent env w1 secretName crt key of
                           (None, w2) \<Rightarrow>
                             Inr (None, s1, w2,
                               [authorizing, CallSign domains,
                                CallSetTLSSecretContent secretName crt key,
                                LogInfo (NewCertificateIssued (verifyCount s1) secretName strdomains)])
                         | (Some errTLS, w2) \<Rightarrow>
                             Inr (Some (ErrCollaborator errTLS), s1, w2,
                               [authorizing, CallSign domains,
                                CallSetTLSSecretContent secretName crt key,
                                LogWarn (ErrorStoring (verifyCount s1) secretName strdomains errTLS)]))
                    | (Inl err, w1) \<Rightarrow>
                        Inr (Some (ErrCollaborator err), s1, w1,
                          [authorizing, CallSign domains,
                           LogWarn (ErrorSigning (verifyCount s1) secretName strdomains err)])))
         else Inr (None, s, w, [LogInfoV 2 (SkippingSign secretName strdomains)]))"

text \<open>
  \<^verbatim>\<open>Notify\<close> takes an \<^verbatim>\<open>interface{}\<close> and asserts it to be a string without a check.
\<close>

datatype item = ItemString string | ItemOther

definition Notify :: "'w Env \<Rightarrow> 'w signer \<Rightarrow> 'w \<Rightarrow> item \<Rightarrow> 'w outcome" where
  "Notify env s w it =
     (if \<not> HasAccount s then Inr (Some ErrAccountNotInitialized, s, w, [])
      else
        (case it of
           ItemOther \<Rightarrow> Inl TypeAssertion
         | ItemString str \<Rightarrow>
             (case Split str of
                [] \<Rightarrow> Inl IndexOutOfRange
              | secretName # domains \<Rightarrow> verify env s w secretName domains)))"

subsection \<open>Reading a trace; two calls in a row\<close>

fun is_sign_call :: "event \<Rightarrow> bool" where
  "is_sign_call (CallSign ds) = True"
| "is_sign_call e = False"

fun is_store_call :: "event \<Rightarrow> bool" where
  "is_store_call (CallSetTLSSecretContent n c k) = True"
| "is_store_call e = False"

definition sign_calls :: "event list \<Rightarrow> nat" where
  "sign_calls tr = length (filter is_sign_call tr)"

text \<open>
  \<^verbatim>\<open>verify\<close> called twice, the second call starting from the signer and the world the first
  one left.  The result keeps, for each call, the error, the world after it and the trace.
\<close>

definition verify_twice ::
  "'w Env \<Rightarrow> 'w signer \<Rightarrow> 'w \<Rightarrow> string \<Rightarrow> string list \<Rightarrow>
     panic + ((error option \<times> 'w \<times> event list) \<times> (error option \<times> 'w \<times> event list))" where
  "verify_twice env s w secretName domains =
     (case verify env s w secretName domains of
        Inl p \<Rightarrow> Inl p
      | Inr (e1, s1, w1, tr1) \<Rightarrow>
          (case verify env s1 w1 secretName domains of
             Inl p \<Rightarrow> Inl p
           | Inr (e2, s2, w2, tr2) \<Rightarrow> Inr ((e1, w1, tr1), (e2, w2, tr2))))"

subsection \<open>Stand-ins for the collaborators\<close>

text \<open>
  Concrete collaborators to run the signer on.  The world is the list of stored secrets,
  newest first; the clock stands still at \<open>now\<close>.  Storing a certificate whose bytes are
  \<^verbatim>\<open>d1,d2,...\<close> makes a secret for those names that expires ninety days after \<open>now\<close>.
\<close>

definition day :: int where
  "day = 86400000000000"

definition issuing_client :: "(string \<times> TLSSecret) list Client" where
  "issuing_client = Client (\<lambda>w domains. (Inr (Join domains, ''key''), w))"

definition failing_client :: "(string \<times> TLSSecret) list Client" where
  "failing_client = Client (\<lambda>w domains. (Inl ''rate limited'', w))"

definition store_env :: "int \<Rightarrow> (string \<times> TLSSecret) list Env" where
  "store_env now =
     \<lparr>Now = (\<lambda>w. now),
      GetTLSSecretContent = (\<lambda>w secretName. map_of w secretName),
      SetTLSSecretContent = (\<lambda>w secretName crt key.
         (None, (secretName, \<lparr>Crt = \<lparr>NotAfter = now + 90 * day, DNSNames = Split crt\<rparr>,
                               Key = key\<rparr>) # w)),
      NewClient = (\<lambda>w acc. if Emails acc = [] then (Inl ''no contact'', w)
                            else (Inr issuing_client, w))\<rparr>"

definition no_account :: Account where
  "no_account = \<lparr>Endpoint = [], Emails = [], TermsAgreed = False\<rparr>"

definition staging_account :: Account where
  "staging_account = \<lparr>Endpoint = ''https://acme-staging-v02.api.letsencrypt.org'',
     Emails = ''ops@example.com'', TermsAgreed = True\<rparr>"

definition signer_with :: "'w Client option \<Rightarrow> 'w signer" where
  "signer_with c = \<lparr>account = staging_account, client = c, expiring = 30 * day, verifyCount = 0\<rparr>"

definition site_cert :: "int \<Rightarrow> TLSSecret" where
  "site_cert notAfter =
     \<lparr>Crt = \<lparr>NotAfter = notAfter, DNSNames = [''a.example.com'', ''b.example.com'']\<rparr>,
      Key = ''key''\<rparr>"

section \<open>pkg/converters/utils/services.go\<close>

subsection \<open>Data\<close>

text \<open>
  The Kubernetes objects, with the fields the resolver reads.  A field of the API that is a
  pointer is an option.  Field names carry a prefix for the object they belong to:
  \<open>sp\<close> the service port, \<open>ea\<close> an endpoint address, \<open>epp\<close> an endpoint port and \<open>ss\<close> an
  endpoint subset of \<^verbatim>\<open>core/v1\<close>; \<open>de\<close> an endpoint, \<open>dp\<close> a port and \<open>es\<close> an endpoint
  slice of \<^verbatim>\<open>discovery/v1\<close>.  \<^verbatim>\<open>int32\<close> is a word read as signed.  A resolved address
  (\<^verbatim>\<open>net.IP\<close>) is kept in the text form \<^verbatim>\<open>ip.String()\<close> gives.
\<close>

type_synonym Protocol = string

record ObjectReference =
  or_Namespace :: string
  or_Name :: string

record Service =
  svc_Name :: string
  svc_Type :: string
  svc_ExternalName :: string

record ServicePort =
  sp_Name :: string
  sp_Protocol :: Protocol
  sp_Port :: "32 word"

record EndpointAddress =
  ea_IP :: string
  ea_NodeName :: "string option"
  ea_TargetRef :: "ObjectReference option"

record EndpointPort =
  epp_Name :: string
  epp_Port :: "32 word"
  epp_Protocol :: Protocol

record EndpointSubset =
  ss_Addresses :: "EndpointAddress list"
  ss_NotReadyAddresses :: "EndpointAddress list"
  ss_Ports :: "EndpointPort list"

record Endpoints =
  Subsets :: "EndpointSubset list"

record SliceEndpoint =
  de_Addresses :: "string list"
  de_Ready :: "bool option"     \<comment> \<open>\<^verbatim>\<open>Conditions.Ready\<close>\<close>
  de_NodeName :: "string option"
  de_TargetRef :: "ObjectReference option"

record SlicePort =
  dp_Name :: "string option"
  dp_Protocol :: "Protocol option"
  dp_Port :: "32 word option"

record EndpointSlice =
  es_Endpoints :: "SliceEndpoint list"
  es_Ports :: "SlicePort list"

record Node =
  Annotations :: "string \<Rightarrow> string option"

text \<open>The lookups of \<^verbatim>\<open>types.Cache\<close> that the resolver calls; they read and change nothing.\<close>

record Cache =
  ExternalNameLookup :: "string \<Rightarrow> cerr + string list"
  GetEndpointSlices :: "Service \<Rightarrow> cerr + EndpointSlice list"
  GetEndpoints :: "Service \<Rightarrow> cerr + Endpoints"
  GetNodeByName :: "string \<Rightarrow> cerr + Node"

record Endpoint =
  IP :: string
  Port :: int
  Target :: string
  TargetRef :: string
  NodeName :: "string option"
  Weight :: int

definition defaultServerWeight :: int where
  "defaultServerWeight = 50"

definition nodeWeightAnnotation :: string where
  "nodeWeightAnnotation = ''ingress.kubernetes.io/node-weight''"

definition ProtocolTCP :: Protocol where
  "ProtocolTCP = ''TCP''"

definition ServiceTypeExternalName :: string where
  "ServiceTypeExternalName = ''ExternalName''"

subsection \<open>Library functions used by the resolver\<close>

text \<open>\<^verbatim>\<open>strconv.Itoa\<close>: the decimal digits, with a minus sign before a negative number.\<close>

definition digit_char :: "nat \<Rightarrow> char" where
  "digit_char d = ''0123456789'' ! d"

fun decimal :: "nat \<Rightarrow> string" where
  "decimal n = (if n < 10 then [digit_char n] else decimal (n div 10) @ [digit_char (n mod 10)])"

declare decimal.simps [simp del]

definition Itoa :: "int \<Rightarrow> string" where
  "Itoa i = (if i < 0 then CHR ''-'' # decimal (nat (- i)) else decimal (nat i))"

text \<open>
  \<^verbatim>\<open>strconv.Atoi\<close> on a 64-bit platform: an optional sign, then one decimal digit or more and
  nothing else; a value outside the range of \<^verbatim>\<open>int\<close> is an error.  \<open>None\<close> is the error.
\<close>

definition is_digit :: "char \<Rightarrow> bool" where
  "is_digit c = (c \<in> set ''0123456789'')"

definition digit_value :: "char \<Rightarrow> int" where
  "digit_value c = int (of_char c) - 48"

definition digits_value :: "string \<Rightarrow> int" where
  "digits_value ds = foldl (\<lambda>n c. n * 10 + digit_value c) 0 ds"

definition Atoi :: "string \<Rightarrow> int option" where
  "Atoi s =
     (let neg = (s \<noteq> [] \<and> hd s = CHR ''-'');
          ds = (if s \<noteq> [] \<and> (hd s = CHR ''-'' \<or> hd s = CHR ''+'') then tl s else s)
      in if ds = [] \<or> \<not> list_all is_digit ds then None
         else
           let v = (if neg then - digits_value ds else digits_value ds)
           in if v < - (2 ^ 63) \<or> 2 ^ 63 - 1 < v then None else Some v)"

text \<open>
  \<^verbatim>\<open>sort.Slice\<close> with \<^verbatim>\<open>Target\<close> of one element less than \<^verbatim>\<open>Target\<close> of the other, the
  order of strings being the order of their bytes.  The library promises a sorted
  rearrangement and no more; on a slice of at most twelve elements it sorts by insertion,
  taking the elements from the left and putting each one behind those that are not
  greater.  That is the function here.  On a longer slice the library may leave endpoints
  of equal \<^verbatim>\<open>Target\<close> in another order than this function does, so the properties
  below rest on the promise only: the result is sorted and has the same elements.
\<close>

fun insertByTarget :: "Endpoint \<Rightarrow> Endpoint list \<Rightarrow> Endpoint list" where
  "insertByTarget e [] = [e]"
| "insertByTarget e (x # xs) =
     (if Target e < Target x then e # x # xs else x # insertByTarget e xs)"

definition sortSlice :: "Endpoint list \<Rightarrow> Endpoint list" where
  "sortSlice xs = foldl (\<lambda>sorted e. insertByTarget e sorted) [] xs"

subsection \<open>newEndpoint, getNodeWeight, matchPort\<close>

text \<open>
  \<^verbatim>\<open>newEndpoint\<close> sets neither the node name nor the weight; they are the zero values.
  What \<^verbatim>\<open>getNodeWeight\<close> writes to the log and to the standard output is left out: it
  returns the same with or without it.
\<close>

definition newEndpoint :: "string \<Rightarrow> int \<Rightarrow> ObjectReference option \<Rightarrow> Endpoint" where
  "newEndpoint ip port targetRef =
     \<lparr>IP = ip,
      Port = port,
      Target = ip @ '':'' @ Itoa port,
      TargetRef = (case targetRef of
                     None \<Rightarrow> []
                   | Some r \<Rightarrow> or_Namespace r @ ''/'' @ or_Name r),
      NodeName = None,
      Weight = 0\<rparr>"

definition getNodeWeight :: "Cache \<Rightarrow> string option \<Rightarrow> int" where
  "getNodeWeight cache nodeName =
     (case nodeName of
        None \<Rightarrow> defaultServerWeight
      | Some name \<Rightarrow>
          (case GetNodeByName cache name of
             Inl e \<Rightarrow> defaultServerWeight
           | Inr node \<Rightarrow>
               (case Annotations node nodeWeightAnnotation of
                  None \<Rightarrow> defaultServerWeight
                | Some weightStr \<Rightarrow>
                    (case Atoi weightStr of
                       None \<Rightarrow> defaultServerWeight
                     | Some weight \<Rightarrow>
                         if weight < 1 \<or> weight > 127 then defaultServerWeight
                         else weight))))"

definition matchPort :: "ServicePort \<Rightarrow> EndpointPort \<Rightarrow> bool" where
  "matchPort svcPort epPort =
     (if epp_Protocol epPort \<noteq> ProtocolTCP then False
      else sp_Name svcPort = [] \<or> sp_Name svcPort = epp_Name epPort)"

subsection \<open>createEndpoints\<close>

text \<open>
  The three nested loops of \<^verbatim>\<open>createEndpoints\<close>, innermost first.  Each carries the lists
  \<^verbatim>\<open>ready\<close> and \<^verbatim>\<open>notReady\<close> and appends to them.
\<close>

fun readyAddresses :: "Cache \<Rightarrow> int \<Rightarrow> EndpointAddress list \<Rightarrow> Endpoint list \<Rightarrow> Endpoint list" where
  "readyAddresses cache port [] ready = ready"
| "readyAddresses cache port (addr # rest) ready =
     readyAddresses cache port rest
       (ready @ [(newEndpoint (ea_IP addr) port (ea_TargetRef addr))
                   \<lparr>NodeName := ea_NodeName addr,
                    Weight := getNodeWeight cache (ea_NodeName addr)\<rparr>])"

fun notReadyAddresses :: "int \<Rightarrow> EndpointAddress list \<Rightarrow> Endpoint list \<Rightarrow> Endpoint list" where
  "notReadyAddresses port [] notReady = notReady"
| "notReadyAddresses port (addr # rest) notReady =
     notReadyAddresses port rest (notReady @ [newEndpoint (ea_IP addr) port (ea_TargetRef addr)])"

fun subsetPorts ::
  "Cache \<Rightarrow> ServicePort \<Rightarrow> EndpointSubset \<Rightarrow> EndpointPort list \<Rightarrow>
     Endpoint list \<times> Endpoint list \<Rightarrow> Endpoint list \<times> Endpoint list" where
  "subsetPorts cache svcPort sub [] (ready, notReady) = (ready, notReady)"
| "subsetPorts cache svcPort sub (epPort # rest) (ready, notReady) =
     (if matchPort svcPort epPort then
        let port = sint (epp_Port epPort)
        in subsetPorts cache svcPort sub rest
             (readyAddresses cache port (ss_Addresses sub) ready,
              notReadyAddresses port (ss_NotReadyAddresses sub) notReady)
      else subsetPorts cache svcPort sub rest (ready, notReady))"

fun endpointsSubsets ::
  "Cache \<Rightarrow> ServicePort \<Rightarrow> EndpointSubset list \<Rightarrow>
     Endpoint list \<times> Endpoint list \<Rightarrow> Endpoint list \<times> Endpoint list" where
  "endpointsSubsets cache svcPort [] acc = acc"
| "endpointsSubsets cache svcPort (sub # rest) acc =
     endpointsSubsets cache svcPort rest (subsetPorts cache svcPort sub (ss_Ports sub) acc)"

definition createEndpoints ::
  "Cache \<Rightarrow> Endpoints \<Rightarrow> ServicePort \<Rightarrow> Endpoint list \<times> Endpoint list \<times> error option" where
  "createEndpoints cache endpoints svcPort =
     (case endpointsSubsets cache svcPort (Subsets endpoints) ([], []) of
        (ready, notReady) \<Rightarrow> (ready, notReady, None))"

subsection \<open>createEndpointSlices\<close>

text \<open>
  The test at the head of the loop over the ports of a slice: \<open>Inr True\<close> when the port
  goes on to the endpoints, \<open>Inr False\<close> at a \<^verbatim>\<open>continue\<close>.  \<^verbatim>\<open>*epPort.Protocol\<close> is read
  always, \<^verbatim>\<open>*epPort.Name\<close> only when the service port has a name.
\<close>

definition slicePortContributes :: "ServicePort \<Rightarrow> SlicePort \<Rightarrow> panic + bool" where
  "slicePortContributes svcPort epPort =
     (let svcPortProtocol = (if sp_Protocol svcPort \<noteq> [] then sp_Protocol svcPort else ProtocolTCP)
      in case dp_Protocol epPort of
           None \<Rightarrow> Inl NilDereference
         | Some protocol \<Rightarrow>
             if svcPortProtocol \<noteq> protocol then Inr False
             else if sp_Name svcPort \<noteq> [] then
               (case dp_Name epPort of
                  None \<Rightarrow> Inl NilDereference
                | Some name \<Rightarrow> Inr (\<not> sp_Name svcPort \<noteq> name))
             else Inr True)"

text \<open>
  The endpoint made for one entry of a slice under one port: the first address of the
  entry, the port behind the pointer.  The arguments are evaluated from the left, so an
  empty list of addresses is met before a nil port.
\<close>

definition domainEndpoint :: "Cache \<Rightarrow> SlicePort \<Rightarrow> SliceEndpoint \<Rightarrow> panic + Endpoint" where
  "domainEndpoint cache epPort endpoint =
     (case de_Addresses endpoint of
        [] \<Rightarrow> Inl IndexOutOfRange
      | address # others \<Rightarrow>
          (case dp_Port epPort of
             None \<Rightarrow> Inl NilDereference
           | Some port \<Rightarrow>
               Inr ((newEndpoint address (sint port) (de_TargetRef endpoint))
                      \<lparr>NodeName := de_NodeName endpoint,
                       Weight := getNodeWeight cache (de_NodeName endpoint)\<rparr>)))"

fun sliceEndpoints ::
  "Cache \<Rightarrow> SlicePort \<Rightarrow> SliceEndpoint list \<Rightarrow> Endpoint list \<times> Endpoint list \<Rightarrow>
     panic + Endpoint list \<times> Endpoint list" where
  "sliceEndpoints cache epPort [] (ready, notReady) = Inr (ready, notReady)"
| "sliceEndpoints cache epPort (endpoint # rest) (ready, notReady) =
     (case domainEndpoint cache epPort endpoint of
        Inl p \<Rightarrow> Inl p
      | Inr e \<Rightarrow>
          if de_Ready endpoint = None \<or> de_Ready endpoint = Some True
          then sliceEndpoints cache epPort rest (ready @ [e], notReady)
          else sliceEndpoints cache epPort rest (ready, notReady @ [e]))"

fun slicePorts ::
  "Cache \<Rightarrow> ServicePort \<Rightarrow> EndpointSlice \<Rightarrow> SlicePort list \<Rightarrow> Endpoint list \<times> Endpoint list \<Rightarrow>
     panic + Endpoint list \<times> Endpoint list" where
  "slicePorts cache svcPort endpointSlice [] acc = Inr acc"
| "slicePorts cache svcPort endpointSlice (epPort # rest) acc =
     (case slicePortContributes svcPort epPort of
        Inl p \<Rightarrow> Inl p
      | Inr False \<Rightarrow> slicePorts cache svcPort endpointSlice rest acc
      | Inr True \<Rightarrow>
          (case sliceEndpoints cache epPort (es_Endpoints endpointSlice) acc of
             Inl p \<Rightarrow> Inl p
           | Inr acc' \<Rightarrow> slicePorts cache svcPort endpointSlice rest acc'))"

fun slicesLoop ::
  "Cache \<Rightarrow> ServicePort \<Rightarrow> EndpointSlice list \<Rightarrow> Endpoint list \<times> Endpoint list \<Rightarrow>
     panic + Endpoint list \<times> Endpoint list" where
  "slicesLoop cache svcPort [] acc = Inr acc"
| "slicesLoop cache svcPort (endpointSlice # rest) acc =
     (case slicePorts cache svcPort endpointSlice (es_Ports endpointSlice) acc of
        Inl p \<Rightarrow> Inl p
      | Inr acc' \<Rightarrow> slicesLoop cache svcPort rest acc')"

definition createEndpointSlices ::
  "Cache \<Rightarrow> EndpointSlice list \<Rightarrow> ServicePort \<Rightarrow>
     panic + Endpoint list \<times> Endpoint list \<times> error option" where
  "createEndpointSlices cache endpointSlices svcPort =
     (case slicesLoop cache svcPort endpointSlices ([], []) of
        Inl p \<Rightarrow> Inl p
      | Inr (ready, notReady) \<Rightarrow> Inr (ready, notReady, None))"

subsection \<open>createEndpointsExternalName and CreateEndpoints\<close>

definition createEndpointsExternalName ::
  "Cache \<Rightarrow> Service \<Rightarrow> ServicePort \<Rightarrow> Endpoint list \<times> error option" where
  "createEndpointsExternalName cache svc svcPort =
     (let port = sint (sp_Port svcPort)
      in if port \<le> 0 then ([], Some (ErrInvalidPort port))
         else
           (case ExternalNameLookup cache (svc_ExternalName svc) of
              Inl err \<Rightarrow> ([], Some (ErrCollaborator err))
            | Inr addr \<Rightarrow> (map (\<lambda>ip. newEndpoint ip port None) addr, None)))"

text \<open>
  A failed lookup of the endpoints returns at once; every other path reaches the two calls
  of \<^verbatim>\<open>sort.Slice\<close>.  A nil slice and an empty one are the same list here.
\<close>

definition CreateEndpoints ::
  "Cache \<Rightarrow> Service \<Rightarrow> ServicePort \<Rightarrow> bool \<Rightarrow>
     panic + Endpoint list \<times> Endpoint list \<times> error option" where
  "CreateEndpoints cache svc svcPort useEndpointSlices =
     (if svc_Type svc = ServiceTypeExternalName then
        (case createEndpointsExternalName cache svc svcPort of
           (ready, err) \<Rightarrow> Inr (sortSlice ready, sortSlice [], err))
      else if useEndpointSlices then
        (case GetEndpointSlices cache svc of
           Inl err1 \<Rightarrow> Inr ([], [], Some (ErrCollaborator err1))
         | Inr endpoints \<Rightarrow>
             (case createEndpointSlices cache endpoints svcPort of
                Inl p \<Rightarrow> Inl p
              | Inr (ready, notReady, err) \<Rightarrow> Inr (sortSlice ready, sortSlice notReady, err)))
      else
        (case GetEndpoints cache svc of
           Inl err1 \<Rightarrow> Inr ([], [], Some (ErrCollaborator err1))
         | Inr endpoints \<Rightarrow>
             (case createEndpoints cache endpoints svcPort of
                (ready, notReady, err) \<Rightarrow> Inr (sortSlice ready, sortSlice notReady, err))))"

subsection \<open>What the slice-based path is to emit\<close>

text \<open>
  The reading of the slice-based path in words, to compare the loops with.  A port of a
  slice is selected when its protocol is the protocol of the service port, TCP when the
  service port names none, and, when the service port has a name, its name is that name.
  An entry is ready unless its flag is present and false.  The entries emitted are those
  of the selected ports, slice by slice and port by port, in the order of the listing.
\<close>

definition slice_port_selected :: "ServicePort \<Rightarrow> SlicePort \<Rightarrow> bool" where
  "slice_port_selected svcPort epPort \<longleftrightarrow>
     dp_Protocol epPort = Some (if sp_Protocol svcPort = [] then ''TCP'' else sp_Protocol svcPort)
     \<and> (sp_Name svcPort \<noteq> [] \<longrightarrow> dp_Name epPort = Some (sp_Name svcPort))"

definition slice_endpoint_ready :: "SliceEndpoint \<Rightarrow> bool" where
  "slice_endpoint_ready endpoint \<longleftrightarrow> de_Ready endpoint = None \<or> de_Ready endpoint = Some True"

definition slice_endpoint_not_ready :: "SliceEndpoint \<Rightarrow> bool" where
  "slice_endpoint_not_ready endpoint \<longleftrightarrow> de_Ready endpoint = Some False"

definition port_emitted ::
  "Cache \<Rightarrow> (SliceEndpoint \<Rightarrow> bool) \<Rightarrow> SliceEndpoint list \<Rightarrow> SlicePort \<Rightarrow> (panic + Endpoint) list" where
  "port_emitted cache keep endpoints epPort =
     map (domainEndpoint cache epPort) (filter keep endpoints)"

definition slice_emitted ::
  "Cache \<Rightarrow> ServicePort \<Rightarrow> (SliceEndpoint \<Rightarrow> bool) \<Rightarrow> EndpointSlice \<Rightarrow> (panic + Endpoint) list" where
  "slice_emitted cache svcPort keep endpointSlice =
     concat (map (port_emitted cache keep (es_Endpoints endpointSlice))
                 (filter (slice_port_selected svcPort) (es_Ports endpointSlice)))"

definition slices_emitted ::
  "Cache \<Rightarrow> ServicePort \<Rightarrow> (SliceEndpoint \<Rightarrow> bool) \<Rightarrow> EndpointSlice list \<Rightarrow> (panic + Endpoint) list" where
  "slices_emitted cache svcPort keep endpointSlices =
     concat (map (slice_emitted cache svcPort keep) endpointSlices)"

text \<open>
  What the slice-based path needs in order to return.  The protocol of every port is read;
  its name is read when the protocol is the one looked for and the service port has a
  name; the port number and the first address are read for every entry of a selected port.
  A slice is readable when none of these reads meets a nil pointer or an empty list.
\<close>

definition slice_port_readable :: "ServicePort \<Rightarrow> SlicePort \<Rightarrow> bool" where
  "slice_port_readable svcPort epPort \<longleftrightarrow>
     dp_Protocol epPort \<noteq> None
     \<and> (dp_Protocol epPort = Some (if sp_Protocol svcPort = [] then ''TCP'' else sp_Protocol svcPort)
          \<and> sp_Name svcPort \<noteq> [] \<longrightarrow> dp_Name epPort \<noteq> None)"

definition slice_endpoint_readable :: "SlicePort \<Rightarrow> SliceEndpoint \<Rightarrow> bool" where
  "slice_endpoint_readable epPort endpoint \<longleftrightarrow>
     de_Addresses endpoint \<noteq> [] \<and> dp_Port epPort \<noteq> None"

definition slice_readable :: "ServicePort \<Rightarrow> EndpointSlice \<Rightarrow> bool" where
  "slice_readable svcPort endpointSlice \<longleftrightarrow>
     (\<forall>epPort \<in> set (es_Ports endpointSlice).
        slice_port_readable svcPort epPort
        \<and> (slice_port_selected svcPort epPort \<longrightarrow>
             (\<forall>endpoint \<in> set (es_Endpoints endpointSlice). slice_endpoint_readable epPort endpoint)))"

definition slices_readable :: "ServicePort \<Rightarrow> EndpointSlice list \<Rightarrow> bool" where
  "slices_readable svcPort endpointSlices \<longleftrightarrow>
     (\<forall>endpointSlice \<in> set endpointSlices. slice_readable svcPort endpointSlice)"

definition weight_in_range :: "Endpoint \<Rightarrow> bool" where
  "weight_in_range e \<longleftrightarrow> 1 \<le> Weight e \<and> Weight e \<le> 127"

subsection \<open>A small cluster\<close>

text \<open>
  A cache to run the resolver on.  Node \<^verbatim>\<open>node-a\<close> carries the weight annotation with the
  value 100; no other node is known.  The service \<^verbatim>\<open>web\<close> has its endpoints in both
  representations; the service \<^verbatim>\<open>db\<close> is an external name with two addresses.
\<close>

definition node_a :: Node where
  "node_a = \<lparr>Annotations = (\<lambda>key. if key = nodeWeightAnnotation then Some ''100'' else None)\<rparr>"

definition web_pod :: "string \<Rightarrow> ObjectReference option" where
  "web_pod name = Some \<lparr>or_Namespace = ''default'', or_Name = name\<rparr>"

definition web_endpoints :: Endpoints where
  "web_endpoints = \<lparr>Subsets = [
     \<lparr>ss_Addresses = [
        \<lparr>ea_IP = ''10.0.0.2'', ea_NodeName = Some ''node-b'', ea_TargetRef = web_pod ''web-2''\<rparr>,
        \<lparr>ea_IP = ''10.0.0.1'', ea_NodeName = Some ''node-a'', ea_TargetRef = web_pod ''web-1''\<rparr>],
      ss_NotReadyAddresses = [
        \<lparr>ea_IP = ''10.0.0.3'', ea_NodeName = Some ''node-a'', ea_TargetRef = web_pod ''web-3''\<rparr>],
      ss_Ports = [
        \<lparr>epp_Name = ''metrics'', epp_Port = 9090, epp_Protocol = ''TCP''\<rparr>,
        \<lparr>epp_Name = ''http'', epp_Port = 8080, epp_Protocol = ''TCP''\<rparr>]\<rparr>]\<rparr>"

definition web_slice :: EndpointSlice where
  "web_slice =
     \<lparr>es_Endpoints = [
        \<lparr>de_Addresses = [''10.0.0.2'', ''fd00::2''], de_Ready = Some False,
         de_NodeName = Some ''node-a'', de_TargetRef = web_pod ''web-2''\<rparr>,
        \<lparr>de_Addresses = [''10.0.0.1''], de_Ready = None,
         de_NodeName = Some ''node-b'', de_TargetRef = web_pod ''web-1''\<rparr>],
      es_Ports = [
        \<lparr>dp_Name = Some ''dns'', dp_Protocol = Some ''UDP'', dp_Port = Some 53\<rparr>,
        \<lparr>dp_Name = Some ''http'', dp_Protocol = Some ''TCP'', dp_Port = Some 8080\<rparr>]\<rparr>"

definition broken_slice :: EndpointSlice where
  "broken_slice =
     \<lparr>es_Endpoints = [
        \<lparr>de_Addresses = [], de_Ready = Some True,
         de_NodeName = Some ''node-a'', de_TargetRef = None\<rparr>],
      es_Ports = [
        \<lparr>dp_Name = Some ''http'', dp_Protocol = Some ''TCP'', dp_Port = Some 8080\<rparr>]\<rparr>"

definition cluster :: Cache where
  "cluster =
     \<lparr>ExternalNameLookup = (\<lambda>name. if name = ''db.example.com''
                                    then Inr [''192.0.2.20'', ''192.0.2.10'']
                                    else Inl ''no such host''),
      GetEndpointSlices = (\<lambda>svc. if svc_Name svc = ''web'' then Inr [web_slice]
                                 else if svc_Name svc = ''broken'' then Inr [web_slice, broken_slice]
                                 else Inl ''endpointslices not found''),
      GetEndpoints = (\<lambda>svc. if svc_Name svc = ''web'' then Inr web_endpoints
                            else Inl ''endpoints not found''),
      GetNodeByName = (\<lambda>name. if name = ''node-a'' then Inr node_a
                              else Inl ''node not found'')\<rparr>"

definition cluster_service :: "string \<Rightarrow> Service" where
  "cluster_service name = \<lparr>svc_Name = name, svc_Type = ''ClusterIP'', svc_ExternalName = []\<rparr>"

definition db_service :: "string \<Rightarrow> Service" where
  "db_service host = \<lparr>svc_Name = ''db'', svc_Type = ''ExternalName'', svc_ExternalName = host\<rparr>"

definition service_port :: "string \<Rightarrow> 32 word \<Rightarrow> ServicePort" where
  "service_port name port = \<lparr>sp_Name = name, sp_Protocol = [], sp_Port = port\<rparr>"

section \<open>Properties of the signer\<close>

subsection \<open>Split and Join\<close>

lemma Join_Cons: "xs \<noteq> [] \<Longrightarrow> Join (x # xs) = x @ '','' @ Join xs"
  by (cases xs) auto

lemma SplitFrom_nonempty: "SplitFrom cur s \<noteq> []"
  by (induction s arbitrary: cur) auto

lemma Join_SplitFrom: "Join (SplitFrom cur s) = rev cur @ s"
  by (induction s arbitrary: cur) (auto simp: Join_Cons SplitFrom_nonempty)

lemma Split_nonempty: "Split s \<noteq> []"
  by (simp add: Split_def SplitFrom_nonempty)

lemma Join_Split: "Join (Split s) = s"
  by (simp add: Split_def Join_SplitFrom)

lemma SplitFrom_no_comma:
  "CHR '','' \<notin> set cur \<Longrightarrow> \<forall>p \<in> set (SplitFrom cur s). CHR '','' \<notin> set p"
proof (induction s arbitrary: cur)
  case Nil
  then show ?case by simp
next
  case (Cons c cs)
  show ?case
  proof (cases "c = CHR '',''")
    case True
    with Cons.prems Cons.IH [of "[]"] show ?thesis by simp
  next
    case False
    with Cons.prems Cons.IH [of "c # cur"] show ?thesis by simp
  qed
qed

lemma Split_no_comma: "p \<in> set (Split s) \<Longrightarrow> CHR '','' \<notin> set p"
  using SplitFrom_no_comma [of "[]" s] by (simp add: Split_def)

subsection \<open>match\<close>

lemma match_scan_iff: "match_scan d ns found \<longleftrightarrow> found \<or> d \<in> set ns"
  by (induction ns arbitrary: found) auto

lemma match_iff: "match ds ns \<longleftrightarrow> set ds \<subseteq> set ns"
  by (induction ds) (auto simp: match_scan_iff)

text \<open>
  Claim C3.  \<^verbatim>\<open>match(domains, dnsnames)\<close> is true exactly when every requested domain is a
  member of \<^verbatim>\<open>dnsnames\<close>.  Membership is equality of strings, the order and the repetitions
  in either list do not matter, and names the certificate has beyond the request are
  tolerated: a certificate for \<open>D2\<close> satisfies a request for any \<open>D1\<close> within \<open>D2\<close>, a request
  with a domain outside \<open>D2\<close> fails, and the empty request matches every certificate.
\<close>

theorem match_superset:
  "(match domains dnsnames \<longleftrightarrow> (\<forall>d \<in> set domains. d \<in> set dnsnames))
   \<and> (set D1 \<subseteq> set D2 \<longrightarrow> match D1 D2)
   \<and> (d \<in> set D1 \<and> d \<notin> set D2 \<longrightarrow> \<not> match D1 D2)
   \<and> (set domains = set domains' \<and> set dnsnames = set dnsnames'
        \<longrightarrow> match domains dnsnames = match domains' dnsnames')
   \<and> match [] dnsnames"
  by (auto simp: match_iff)

theorem match_superset_witness:
  "match [''b.example.com'', ''a.example.com''] [''a.example.com'', ''b.example.com'', ''c.example.com'']
   \<and> \<not> match [''a.example.com'', ''example.com''] [''a.example.com'', ''b.example.com'']
   \<and> match [] [''a.example.com'']"
  using match_superset [of "[''b.example.com'', ''a.example.com'']"
      "[''a.example.com'', ''b.example.com'', ''c.example.com'']"
      "[''a.example.com'', ''example.com'']" "[''a.example.com'', ''b.example.com'']"
      "''example.com''" "[''b.example.com'', ''a.example.com'']"
      "[''a.example.com'', ''b.example.com'', ''c.example.com'']"]
  by simp

subsection \<open>verify\<close>

lemma verify_error_origin:
  "verify env s w n ds = Inr (Some e, s', w', tr) \<Longrightarrow> \<exists>m. e = ErrCollaborator m"
  by (auto simp: verify_def Let_def split: if_splits option.splits sum.splits prod.splits)

lemma verify_skip:
  assumes "GetTLSSecretContent env w n = Some tls"
    and "\<not> NotAfter (Crt tls) < Now env w + expiring s"
    and "set ds \<subseteq> set (DNSNames (Crt tls))"
  shows "verify env s w n ds = Inr (None, s, w, [LogInfoV 2 (SkippingSign n (Join ds))])"
  using assms by (simp add: verify_def needs_issue_def match_iff)

lemma verify_sign_calls: "verify env s w n ds = Inr (e, s', w', tr) \<Longrightarrow> sign_calls tr \<le> 1"
  by (auto simp: verify_def Let_def sign_calls_def
      split: if_splits option.splits sum.splits prod.splits)

lemma verify_expiring: "verify env s w n ds = Inr (e, s', w', tr) \<Longrightarrow> expiring s' = expiring s"
  by (auto simp: verify_def Let_def split: if_splits option.splits sum.splits prod.splits)

lemma needs_issue_later:
  "needs_issue d tls ds \<Longrightarrow> d \<le> d' \<Longrightarrow> needs_issue d' tls ds"
  by (auto simp: needs_issue_def split: option.splits)

lemma verify_signs_iff_needs:
  "client s = Some c \<Longrightarrow> verify env s w n ds = Inr (e, s', w', tr) \<Longrightarrow>
   sign_calls tr = (if needs_issue (Now env w + expiring s) (GetTLSSecretContent env w n) ds then 1 else 0)"
  by (auto simp: verify_def Let_def sign_calls_def split: if_splits sum.splits prod.splits option.splits)

lemma verify_client: "verify env s w n ds = Inr (e, s', w', tr) \<Longrightarrow> client s' = client s"
  by (auto simp: verify_def Let_def split: if_splits option.splits sum.splits prod.splits)

lemma verify_nil_cases:
  assumes "client s = Some c" and "verify env s w n ds = Inr (None, s1, w1, tr1)"
  shows "(\<not> needs_issue (Now env w + expiring s) (GetTLSSecretContent env w n) ds \<and> w1 = w)
       \<or> (needs_issue (Now env w + expiring s) (GetTLSSecretContent env w n) ds
          \<and> (\<exists>crt key wa. Sign c w ds = (Inr (crt, key), wa)
                \<and> SetTLSSecretContent env wa n crt key = (None, w1)))"
  using assms
  by (auto simp: verify_def Let_def split: if_splits option.splits sum.splits prod.splits)

text \<open>
  Claim C1.  With a client bound (\<^verbatim>\<open>verify\<close> is reached through \<^verbatim>\<open>Notify\<close> only, which
  checks it), \<^verbatim>\<open>verify\<close> returns, and it calls the signing capability exactly when no
  certificate is stored under the secret name, or the stored one expires before
  now + expiring, or its DNS names do not contain every requested domain.  When it does,
  the call is \<^verbatim>\<open>Sign\<close> of the bound client on the requested domains and the counter goes up
  by one; an error of \<^verbatim>\<open>Sign\<close> is the error returned, in the world \<^verbatim>\<open>Sign\<close> left and with
  no storage call; a certificate and key from \<^verbatim>\<open>Sign\<close> are handed to
  \<^verbatim>\<open>SetTLSSecretContent\<close> under the secret name, and what that returns (nil or its error)
  is returned, in the world it left.  When none of the three holds there is no signing and
  no storage call, the result is nil, and the signer and the world are as before.
\<close>

theorem verify_issue_iff:
  assumes "client s = Some c"
  shows "\<exists>err s' w' tr.
      verify env s w secretName domains = Inr (err, s', w', tr)
    \<and> ((\<exists>e \<in> set tr. is_sign_call e) \<longleftrightarrow>
         (case GetTLSSecretContent env w secretName of
            None \<Rightarrow> True
          | Some tls \<Rightarrow> NotAfter (Crt tls) < Now env w + expiring s
                       \<or> \<not> set domains \<subseteq> set (DNSNames (Crt tls))))
    \<and> ((\<exists>e \<in> set tr. is_sign_call e) \<longrightarrow>
          CallSign domains \<in> set tr
        \<and> s' = s\<lparr>verifyCount := verifyCount s + 1\<rparr>
        \<and> (\<forall>e w1. Sign c w domains = (Inl e, w1) \<longrightarrow>
              err = Some (ErrCollaborator e) \<and> w' = w1 \<and> \<not> (\<exists>e \<in> set tr. is_store_call e))
        \<and> (\<forall>crt key w1 r w2.
              Sign c w domains = (Inr (crt, key), w1)
              \<and> SetTLSSecretContent env w1 secretName crt key = (r, w2) \<longrightarrow>
              err = map_option ErrCollaborator r \<and> w' = w2
              \<and> CallSetTLSSecretContent secretName crt key \<in> set tr))
    \<and> (\<not> (\<exists>e \<in> set tr. is_sign_call e) \<longrightarrow>
          err = None \<and> s' = s \<and> w' = w \<and> \<not> (\<exists>e \<in> set tr. is_store_call e))"
proof (cases "needs_issue (Now env w + expiring s) (GetTLSSecretContent env w secretName) domains")
  case False
  then show ?thesis
    by (auto simp: verify_def Let_def needs_issue_def match_iff split: option.splits)
next
  case True
  obtain res w1 where sg: "Sign c w domains = (res, w1)"
    by (cases "Sign c w domains") auto
  show ?thesis
  proof (cases res)
    case (Inl e)
    with True sg assms show ?thesis
      by (auto simp: verify_def Let_def needs_issue_def match_iff split: option.splits)
  next
    case (Inr ck)
    obtain crt key where ck: "ck = (crt, key)" by (cases ck) auto
    obtain r w2 where st: "SetTLSSecretContent env w1 secretName crt key = (r, w2)"
      by (cases "SetTLSSecretContent env w1 secretName crt key") auto
    show ?thesis
    proof (cases r)
      case None
      with True sg Inr ck st assms show ?thesis
        by (auto simp: verify_def Let_def needs_issue_def match_iff split: option.splits)
    next
      case (Some e)
      with True sg Inr ck st assms show ?thesis
        by (auto simp: verify_def Let_def needs_issue_def match_iff split: option.splits)
    qed
  qed
qed

theorem verify_issue_iff_witness:
  "client (signer_with (Some issuing_client)) = Some issuing_client
   \<and> (\<exists>s' tr.
        verify (store_env 0) (signer_with (Some issuing_client)) [] ''site-tls'' [''a.example.com'']
          = Inr (None, s',
              [(''site-tls'',
                \<lparr>Crt = \<lparr>NotAfter = 90 * day, DNSNames = [''a.example.com'']\<rparr>, Key = ''key''\<rparr>)],
              tr)
        \<and> CallSign [''a.example.com''] \<in> set tr
        \<and> CallSetTLSSecretContent ''site-tls'' ''a.example.com'' ''key'' \<in> set tr)
   \<and> (\<exists>w' tr.
        verify (store_env 0) (signer_with (Some failing_client)) [] ''site-tls'' [''a.example.com'']
          = Inr (Some (ErrCollaborator ''rate limited''),
                 (signer_with (Some failing_client))\<lparr>verifyCount := 1\<rparr>, w', tr)
        \<and> CallSign [''a.example.com''] \<in> set tr)
   \<and> (\<exists>tr.
        verify (store_env 0) (signer_with (Some issuing_client))
            [(''site-tls'', site_cert (90 * day))] ''site-tls'' [''b.example.com'', ''a.example.com'']
          = Inr (None, signer_with (Some issuing_client), [(''site-tls'', site_cert (90 * day))], tr)
        \<and> \<not> (\<exists>e \<in> set tr. is_sign_call e))"
proof -
  have bound: "client (signer_with (Some issuing_client)) = Some issuing_client"
    by (simp add: signer_with_def)
  have bound': "client (signer_with (Some failing_client)) = Some failing_client"
    by (simp add: signer_with_def)
  have issue: "\<exists>s' tr.
        verify (store_env 0) (signer_with (Some issuing_client)) [] ''site-tls'' [''a.example.com'']
          = Inr (None, s',
              [(''site-tls'',
                \<lparr>Crt = \<lparr>NotAfter = 90 * day, DNSNames = [''a.example.com'']\<rparr>, Key = ''key''\<rparr>)],
              tr)
        \<and> CallSign [''a.example.com''] \<in> set tr
        \<and> CallSetTLSSecretContent ''site-tls'' ''a.example.com'' ''key'' \<in> set tr"
    using verify_issue_iff [OF bound, of "store_env 0" "[]" "''site-tls''" "[''a.example.com'']"]
    by (auto simp: store_env_def issuing_client_def Split_def)
  have failing: "\<exists>w' tr.
        verify (store_env 0) (signer_with (Some failing_client)) [] ''site-tls'' [''a.example.com'']
          = Inr (Some (ErrCollaborator ''rate limited''),
                 (signer_with (Some failing_client))\<lparr>verifyCount := 1\<rparr>, w', tr)
        \<and> CallSign [''a.example.com''] \<in> set tr"
    using verify_issue_iff [OF bound', of "store_env 0" "[]" "''site-tls''" "[''a.example.com'']"]
    by (auto simp: store_env_def failing_client_def signer_with_def)
  have skip: "\<exists>tr.
        verify (store_env 0) (signer_with (Some issuing_client))
            [(''site-tls'', site_cert (90 * day))] ''site-tls'' [''b.example.com'', ''a.example.com'']
          = Inr (None, signer_with (Some issuing_client), [(''site-tls'', site_cert (90 * day))], tr)
        \<and> \<not> (\<exists>e \<in> set tr. is_sign_call e)"
    using verify_issue_iff [OF bound, of "store_env 0" "[(''site-tls'', site_cert (90 * day))]"
        "''site-tls''" "[''b.example.com'', ''a.example.com'']"]
    by (auto simp: store_env_def signer_with_def site_cert_def day_def)
  from bound issue failing skip show ?thesis by blast
qed

text \<open>
  Scenarios A and B of the specification: no certificate stored, the request is signed and
  stored and nil is returned; a certificate ten days from expiry with a window of thirty
  days is renewed.
\<close>

lemma verify_scenario_A:
  "verify (store_env 0) (signer_with (Some issuing_client)) [] ''site-tls'' [''a.example.com'']
     = Inr (None, (signer_with (Some issuing_client))\<lparr>verifyCount := 1\<rparr>,
         [(''site-tls'',
           \<lparr>Crt = \<lparr>NotAfter = 90 * day, DNSNames = [''a.example.com'']\<rparr>, Key = ''key''\<rparr>)],
         [LogInfoV 2 (Authorizing 1 ''site-tls'' ''a.example.com''
             ''https://acme-staging-v02.api.letsencrypt.org'' WhyNotExist),
          CallSign [''a.example.com''],
          CallSetTLSSecretContent ''site-tls'' ''a.example.com'' ''key'',
          LogInfo (NewCertificateIssued 1 ''site-tls'' ''a.example.com'')])"
  by (simp add: verify_def signer_with_def store_env_def issuing_client_def needs_issue_def
     why_issue_def staging_account_def Split_def Let_def)

lemma verify_scenario_B:
  "\<exists>s' w' tr.
     verify (store_env 0) (signer_with (Some issuing_client)) [(''site-tls'', site_cert (10 * day))]
       ''site-tls'' [''a.example.com'', ''b.example.com'']
     = Inr (None, s', w',
         LogInfoV 2 (Authorizing 1 ''site-tls'' ''a.example.com,b.example.com''
             ''https://acme-staging-v02.api.letsencrypt.org'' (WhyExpires (10 * day)))
         # CallSign [''a.example.com'', ''b.example.com''] # tr)"
  by (simp add: verify_def signer_with_def store_env_def issuing_client_def needs_issue_def
     why_issue_def staging_account_def site_cert_def day_def Let_def)

text \<open>
  Claim C4, as the code has it.  \<^verbatim>\<open>verify\<close> keeps no memory of an attempt; whether the
  second call signs depends on what the cache shows then.  What holds is this.  Let the
  first call return nil with a client bound.  Let a certificate that the first call stored
  be shown by the cache afterwards with the domains it was signed for among its names.
  Let the cache show at the second call the certificate it showed when the first call
  ended, and let that certificate not expire before the second call's due date.  Then the
  second call takes the skip path, and the two calls together sign at most once.
\<close>

theorem verify_twice_signs_once:
  assumes bound: "client s = Some c"
    and first: "verify env s w secretName domains = Inr (None, s1, w1, tr1)"
    and stored: "\<And>crt key wa.
          Sign c w domains = (Inr (crt, key), wa) \<Longrightarrow>
          SetTLSSecretContent env wa secretName crt key = (None, w1) \<Longrightarrow>
          \<exists>tls. GetTLSSecretContent env w1 secretName = Some tls
               \<and> set domains \<subseteq> set (DNSNames (Crt tls))"
    and unchanged: "GetTLSSecretContent env w2 secretName = GetTLSSecretContent env w1 secretName"
    and not_due: "\<And>tls. GetTLSSecretContent env w1 secretName = Some tls \<Longrightarrow>
          \<not> NotAfter (Crt tls) < Now env w2 + expiring s"
  shows "verify env s1 w2 secretName domains
           = Inr (None, s1, w2, [LogInfoV 2 (SkippingSign secretName (Join domains))])
       \<and> sign_calls (tr1 @ [LogInfoV 2 (SkippingSign secretName (Join domains))]) \<le> 1"
proof -
  have e: "expiring s1 = expiring s"
    using first by (rule verify_expiring)
  have "\<exists>tls. GetTLSSecretContent env w1 secretName = Some tls
             \<and> set domains \<subseteq> set (DNSNames (Crt tls))"
    using verify_nil_cases [OF bound first]
  proof
    assume "\<not> needs_issue (Now env w + expiring s) (GetTLSSecretContent env w secretName) domains
        \<and> w1 = w"
    then show ?thesis
      by (auto simp: needs_issue_def match_iff split: option.splits)
  next
    assume "needs_issue (Now env w + expiring s) (GetTLSSecretContent env w secretName) domains
        \<and> (\<exists>crt key wa. Sign c w domains = (Inr (crt, key), wa)
              \<and> SetTLSSecretContent env wa secretName crt key = (None, w1))"
    then show ?thesis using stored by blast
  qed
  then obtain tls where tls: "GetTLSSecretContent env w1 secretName = Some tls"
    and covers: "set domains \<subseteq> set (DNSNames (Crt tls))"
    by blast
  have "GetTLSSecretContent env w2 secretName = Some tls"
    using unchanged tls by simp
  moreover have "\<not> NotAfter (Crt tls) < Now env w2 + expiring s1"
    using not_due [OF tls] e by simp
  ultimately have second: "verify env s1 w2 secretName domains
           = Inr (None, s1, w2, [LogInfoV 2 (SkippingSign secretName (Join domains))])"
    using covers by (rule verify_skip)
  have "sign_calls tr1 \<le> 1"
    using first by (rule verify_sign_calls)
  then have "sign_calls (tr1 @ [LogInfoV 2 (SkippingSign secretName (Join domains))]) \<le> 1"
    by (simp add: sign_calls_def)
  with second show ?thesis by simp
qed

theorem verify_twice_signs_once_witness:
  "verify_twice (store_env 0) (signer_with (Some issuing_client)) [] ''site-tls'' [''a.example.com'']
     = Inr ((None,
             [(''site-tls'',
               \<lparr>Crt = \<lparr>NotAfter = 90 * day, DNSNames = [''a.example.com'']\<rparr>, Key = ''key''\<rparr>)],
             [LogInfoV 2 (Authorizing 1 ''site-tls'' ''a.example.com''
                 ''https://acme-staging-v02.api.letsencrypt.org'' WhyNotExist),
              CallSign [''a.example.com''],
              CallSetTLSSecretContent ''site-tls'' ''a.example.com'' ''key'',
              LogInfo (NewCertificateIssued 1 ''site-tls'' ''a.example.com'')]),
            (None,
             [(''site-tls'',
               \<lparr>Crt = \<lparr>NotAfter = 90 * day, DNSNames = [''a.example.com'']\<rparr>, Key = ''key''\<rparr>)],
             [LogInfoV 2 (SkippingSign ''site-tls'' ''a.example.com'')]))"
proof -
  let ?tls = "\<lparr>Crt = \<lparr>NotAfter = 90 * day, DNSNames = [''a.example.com'']\<rparr>, Key = ''key''\<rparr>"
  let ?s = "signer_with (Some issuing_client) :: (string \<times> TLSSecret) list signer"
  note first = verify_scenario_A
  have bound: "client ?s = Some issuing_client"
    by (simp add: signer_with_def)
  have stored: "\<exists>tls. GetTLSSecretContent (store_env 0) [(''site-tls'', ?tls)] ''site-tls'' = Some tls
               \<and> set [''a.example.com''] \<subseteq> set (DNSNames (Crt tls))" for crt key wa
    by (simp add: store_env_def)
  have not_due: "\<not> NotAfter (Crt tls) < Now (store_env 0) [(''site-tls'', ?tls)] + expiring ?s"
    if "GetTLSSecretContent (store_env 0) [(''site-tls'', ?tls)] ''site-tls'' = Some tls" for tls
    using that by (auto simp: store_env_def signer_with_def day_def)
  have "verify (store_env 0) (?s\<lparr>verifyCount := 1\<rparr>)
          [(''site-tls'', ?tls)] ''site-tls'' [''a.example.com'']
        = Inr (None, ?s\<lparr>verifyCount := 1\<rparr>,
            [(''site-tls'', ?tls)], [LogInfoV 2 (SkippingSign ''site-tls'' (Join [''a.example.com'']))])"
    using verify_twice_signs_once [OF bound first stored refl not_due]
    by simp
  with first show ?thesis
    by (simp add: verify_twice_def)
qed

text \<open>
  The other side: when the first call returns an error, the cache shows at the second call
  what it showed at the first, and the clock has not gone back, each of the two calls signs.
\<close>

lemma verify_retries_after_failure:
  assumes bound: "client s = Some c"
    and first: "verify env s w secretName domains = Inr (Some e, s1, w1, tr1)"
    and unchanged: "GetTLSSecretContent env w2 secretName = GetTLSSecretContent env w secretName"
    and later: "Now env w \<le> Now env w2"
    and second: "verify env s1 w2 secretName domains = Inr (e2, s2, w3, tr2)"
  shows "sign_calls tr1 = 1 \<and> sign_calls tr2 = 1"
proof -
  have need: "needs_issue (Now env w + expiring s) (GetTLSSecretContent env w secretName) domains"
    using first by (auto simp: verify_def Let_def split: if_splits)
  have e: "expiring s1 = expiring s" using first by (rule verify_expiring)
  have c: "client s1 = Some c" using verify_client [OF first] bound by simp
  have "needs_issue (Now env w2 + expiring s1) (GetTLSSecretContent env w2 secretName) domains"
    using needs_issue_later [OF need, of "Now env w2 + expiring s"] later e unchanged by simp
  then show ?thesis
    using verify_signs_iff_needs [OF bound first] verify_signs_iff_needs [OF c second] need
    by simp
qed

text \<open>
  Claim C4, as stated, fails: with no certificate stored and a signing capability that
  fails, nothing is stored, the stored certificate, the domains and the window are the
  same at the second call, and each of the two calls signs.
\<close>

theorem verify_twice_counterexample:
  "verify_twice (store_env 0) (signer_with (Some failing_client)) [] ''site-tls'' [''a.example.com'']
     = Inr ((Some (ErrCollaborator ''rate limited''), [],
              [LogInfoV 2 (Authorizing 1 ''site-tls'' ''a.example.com''
                 ''https://acme-staging-v02.api.letsencrypt.org'' WhyNotExist),
               CallSign [''a.example.com''],
               LogWarn (ErrorSigning 1 ''site-tls'' ''a.example.com'' ''rate limited'')]),
            (Some (ErrCollaborator ''rate limited''), [],
              [LogInfoV 2 (Authorizing 2 ''site-tls'' ''a.example.com''
                 ''https://acme-staging-v02.api.letsencrypt.org'' WhyNotExist),
               CallSign [''a.example.com''],
               LogWarn (ErrorSigning 2 ''site-tls'' ''a.example.com'' ''rate limited'')]))"
  by (simp add: verify_twice_def verify_def signer_with_def store_env_def failing_client_def
      needs_issue_def why_issue_def staging_account_def Let_def)

subsection \<open>Notify\<close>

text \<open>
  Claim C5.  \<^verbatim>\<open>Notify\<close> returns the error of the uninitialized account exactly when no
  client is bound, which is when \<^verbatim>\<open>HasAccount\<close> is false; it then touches nothing.  With a
  client bound and a string item, the result is the result of \<^verbatim>\<open>verify\<close> on the first
  piece of the item as the secret name and the remaining pieces as the domains, the pieces
  being those between the commas.
\<close>

theorem Notify_uninitialized_iff:
  "((\<exists>s' w' tr. Notify env s w it = Inr (Some ErrAccountNotInitialized, s', w', tr))
      \<longleftrightarrow> \<not> HasAccount s)
   \<and> (HasAccount s \<longleftrightarrow> client s \<noteq> None)
   \<and> (\<not> HasAccount s \<longrightarrow> Notify env s w it = Inr (Some ErrAccountNotInitialized, s, w, []))
   \<and> (HasAccount s \<longrightarrow>
        Notify env s w (ItemString str) = verify env s w (hd (Split str)) (tl (Split str)))
   \<and> Join (hd (Split str) # tl (Split str)) = str"
proof -
  have a: "\<not> HasAccount s \<Longrightarrow> Notify env s w it = Inr (Some ErrAccountNotInitialized, s, w, [])"
    by (simp add: Notify_def)
  have b: "HasAccount s \<Longrightarrow>
        Notify env s w (ItemString str) = verify env s w (hd (Split str)) (tl (Split str))" for str
    using Split_nonempty [of str] by (cases "Split str") (simp_all add: Notify_def)
  have c: "HasAccount s \<Longrightarrow> Notify env s w it \<noteq> Inr (Some ErrAccountNotInitialized, s', w', tr)"
    for s' w' tr
  proof (cases it)
    case (ItemString str)
    assume "HasAccount s"
    then show ?thesis
      using b [of str] verify_error_origin [of env s w "hd (Split str)" "tl (Split str)"
          ErrAccountNotInitialized s' w' tr] ItemString
      by auto
  next
    case ItemOther
    assume "HasAccount s"
    then show ?thesis using ItemOther by (simp add: Notify_def)
  qed
  have d: "Join (hd (Split str) # tl (Split str)) = str"
    using Split_nonempty [of str] Join_Split [of str] by simp
  have e: "(\<exists>s' w' tr. Notify env s w it = Inr (Some ErrAccountNotInitialized, s', w', tr))
      \<longleftrightarrow> \<not> HasAccount s"
    using a c by blast
  have f: "HasAccount s \<longleftrightarrow> client s \<noteq> None"
    by (simp add: HasAccount_def)
  from a b d e f show ?thesis by blast
qed

theorem Notify_uninitialized_iff_witness:
  "\<not> HasAccount (signer_with None :: (string \<times> TLSSecret) list signer)
   \<and> Notify (store_env 0) (signer_with None) [] (ItemString ''site-tls,a.example.com'')
       = Inr (Some ErrAccountNotInitialized, signer_with None, [], [])
   \<and> HasAccount (signer_with (Some issuing_client))
   \<and> Notify (store_env 0) (signer_with (Some issuing_client)) []
         (ItemString ''site-tls,a.example.com,b.example.com'')
       = verify (store_env 0) (signer_with (Some issuing_client)) []
           ''site-tls'' [''a.example.com'', ''b.example.com'']"
  using Notify_uninitialized_iff [of "store_env 0" "signer_with None" "[]"
          "ItemString ''site-tls,a.example.com''" "''site-tls,a.example.com''"]
        Notify_uninitialized_iff [of "store_env 0" "signer_with (Some issuing_client)" "[]"
          "ItemString ''site-tls,a.example.com,b.example.com''"
          "''site-tls,a.example.com,b.example.com''"]
  by (simp add: signer_with_def Split_def)

subsection \<open>AcmeAccount\<close>

text \<open>
  Claim C6.  When the endpoint (after the aliases are replaced), the emails and the flag
  make the account the signer already has, \<^verbatim>\<open>AcmeAccount\<close> changes nothing: the signer
  (account, client, window, counter) and the world are as before and nothing is logged or
  called.  When they make another account, the client the signer had is dropped first: the
  call behaves as on the signer without a client, so the result has no client, or the one
  \<^verbatim>\<open>NewClient\<close> has just made for the new account.
\<close>

theorem AcmeAccount_same_tuple_noop:
  "(account s = \<lparr>Endpoint = normalize_endpoint endpoint, Emails = emails, TermsAgreed = termsAgreed\<rparr>
      \<longrightarrow> AcmeAccount env s w endpoint emails termsAgreed = (s, w, []))
   \<and> (account s \<noteq> \<lparr>Endpoint = normalize_endpoint endpoint, Emails = emails, TermsAgreed = termsAgreed\<rparr>
      \<longrightarrow> AcmeAccount env s w endpoint emails termsAgreed
            = AcmeAccount env (s\<lparr>client := None\<rparr>) w endpoint emails termsAgreed
        \<and> (case AcmeAccount env s w endpoint emails termsAgreed of
             (s', w', tr) \<Rightarrow>
               expiring s' = expiring s \<and> verifyCount s' = verifyCount s
             \<and> (client s' = None \<and> account s' = account s
                \<or> (\<exists>c. NewClient env w \<lparr>Endpoint = normalize_endpoint endpoint, Emails = emails,
                          TermsAgreed = termsAgreed\<rparr> = (Inr c, w')
                       \<and> client s' = Some c
                       \<and> account s' = \<lparr>Endpoint = normalize_endpoint endpoint, Emails = emails,
                          TermsAgreed = termsAgreed\<rparr>))))"
  by (auto simp: AcmeAccount_def Let_def split: prod.splits sum.splits)

theorem AcmeAccount_same_tuple_noop_witness:
  "AcmeAccount (store_env 0) (signer_with (Some issuing_client)) []
       ''v2-staging'' ''ops@example.com'' True
     = (signer_with (Some issuing_client), [], [])
   \<and> AcmeAccount (store_env 0) (signer_with (Some issuing_client)) [] [] [] False
     = AcmeAccount (store_env 0) (signer_with None) [] [] [] False
   \<and> AcmeAccount (store_env 0) (signer_with (Some failing_client)) []
       ''v2'' ''ops@example.com'' True
     = AcmeAccount (store_env 0) (signer_with None) [] ''v2'' ''ops@example.com'' True"
proof -
  have a: "AcmeAccount (store_env 0) (signer_with (Some issuing_client)) []
       ''v2-staging'' ''ops@example.com'' True
     = (signer_with (Some issuing_client), [], [])"
    using AcmeAccount_same_tuple_noop [of "signer_with (Some issuing_client)" "''v2-staging''"
          "''ops@example.com''" True "store_env 0" "[]"]
    by (simp add: signer_with_def staging_account_def normalize_endpoint_def)
  have b: "AcmeAccount (store_env 0) (signer_with (Some issuing_client)) [] [] [] False
     = AcmeAccount (store_env 0) (signer_with None) [] [] [] False"
    using AcmeAccount_same_tuple_noop [of "signer_with (Some issuing_client)" "[]" "[]" False
          "store_env 0" "[]"]
    by (simp add: signer_with_def staging_account_def normalize_endpoint_def)
  have c: "AcmeAccount (store_env 0) (signer_with (Some failing_client)) []
       ''v2'' ''ops@example.com'' True
     = AcmeAccount (store_env 0) (signer_with None) [] ''v2'' ''ops@example.com'' True"
    using AcmeAccount_same_tuple_noop [of "signer_with (Some failing_client)" "''v2''"
          "''ops@example.com''" True "store_env 0" "[]"]
    by (simp add: signer_with_def staging_account_def normalize_endpoint_def)
  from a b c show ?thesis by simp
qed

text \<open>
  The account is recorded only when a client was made.  After a call with the empty tuple
  the signer still remembers the previous account, so a call with that account again is
  taken for unchanged and leaves the signer without a client.
\<close>

lemma AcmeAccount_reenable_stays_disabled:
  "AcmeAccount (store_env 0) (fst (AcmeAccount (store_env 0) (signer_with (Some issuing_client)) [] [] [] False)) []
       ''v2-staging'' ''ops@example.com'' True = (signer_with None, [], [])"
  by (simp add: AcmeAccount_def signer_with_def staging_account_def normalize_endpoint_def Let_def)

section \<open>Properties of the endpoint resolver\<close>

subsection \<open>sort.Slice\<close>

lemma mset_insertByTarget: "mset (insertByTarget e xs) = add_mset e (mset xs)"
  by (induction xs) auto

lemma set_insertByTarget: "set (insertByTarget e xs) = insert e (set xs)"
  by (induction xs) auto

lemma sorted_insertByTarget:
  "sorted (map Target xs) \<Longrightarrow> sorted (map Target (insertByTarget e xs))"
  by (induction xs) (auto simp: set_insertByTarget)

lemma mset_insertion_fold:
  "mset (foldl (\<lambda>sorted e. insertByTarget e sorted) acc xs) = mset acc + mset xs"
  by (induction xs arbitrary: acc) (auto simp: mset_insertByTarget)

lemma sorted_insertion_fold:
  "sorted (map Target acc) \<Longrightarrow>
   sorted (map Target (foldl (\<lambda>sorted e. insertByTarget e sorted) acc xs))"
  by (induction xs arbitrary: acc) (auto simp: sorted_insertByTarget)

lemma mset_sortSlice: "mset (sortSlice xs) = mset xs"
  by (simp add: sortSlice_def mset_insertion_fold)

lemma set_sortSlice: "set (sortSlice xs) = set xs"
  using mset_sortSlice [of xs] by (metis set_mset_mset)

lemma length_sortSlice: "length (sortSlice xs) = length xs"
  using mset_sortSlice [of xs] by (metis size_mset)

lemma sorted_sortSlice: "sorted (map Target (sortSlice xs))"
  by (simp add: sortSlice_def sorted_insertion_fold)

lemma sortSlice_Nil: "sortSlice [] = []"
  by (simp add: sortSlice_def)

subsection \<open>The node weight\<close>

lemma getNodeWeight_range: "1 \<le> getNodeWeight cache nodeName \<and> getNodeWeight cache nodeName \<le> 127"
  by (simp add: getNodeWeight_def defaultServerWeight_def split: option.splits sum.splits)


subsection \<open>The list-based path\<close>

lemma readyAddresses_eq:
  "readyAddresses cache port addrs ready =
     ready @ map (\<lambda>addr. (newEndpoint (ea_IP addr) port (ea_TargetRef addr))
                     \<lparr>NodeName := ea_NodeName addr,
                      Weight := getNodeWeight cache (ea_NodeName addr)\<rparr>) addrs"
  by (induction addrs arbitrary: ready) auto

lemma readyAddresses_weights:
  "\<forall>e \<in> set ready. weight_in_range e \<Longrightarrow>
   \<forall>e \<in> set (readyAddresses cache port addrs ready). weight_in_range e"
  using getNodeWeight_range by (auto simp: readyAddresses_eq weight_in_range_def)

lemma subsetPorts_weights:
  "\<forall>e \<in> set (fst acc). weight_in_range e \<Longrightarrow>
   \<forall>e \<in> set (fst (subsetPorts cache svcPort sub ports acc)). weight_in_range e"
proof (induction cache svcPort sub ports acc rule: subsetPorts.induct)
  case (1 cache svcPort sub ready notReady)
  then show ?case by simp
next
  case (2 cache svcPort sub epPort rest ready notReady)
  show ?case
  proof (cases "matchPort svcPort epPort")
    case True
    have "\<forall>e \<in> set (readyAddresses cache (sint (epp_Port epPort)) (ss_Addresses sub) ready).
            weight_in_range e"
      using "2.prems" by (intro readyAddresses_weights) simp
    with True "2.IH"(1) [OF True refl] show ?thesis by (simp add: Let_def)
  next
    case False
    with "2.IH"(2) "2.prems" show ?thesis by simp
  qed
qed

lemma endpointsSubsets_weights:
  "\<forall>e \<in> set (fst acc). weight_in_range e \<Longrightarrow>
   \<forall>e \<in> set (fst (endpointsSubsets cache svcPort subsets acc)). weight_in_range e"
proof (induction subsets arbitrary: acc)
  case Nil
  then show ?case by simp
next
  case (Cons sub rest)
  have "\<forall>e \<in> set (fst (subsetPorts cache svcPort sub (ss_Ports sub) acc)). weight_in_range e"
    using Cons.prems by (rule subsetPorts_weights)
  then show ?case using Cons.IH by simp
qed

lemma createEndpoints_weights:
  "createEndpoints cache endpoints svcPort = (ready, notReady, err)
   \<Longrightarrow> err = None \<and> (\<forall>e \<in> set ready. weight_in_range e)"
  using endpointsSubsets_weights [of "([], [])" cache svcPort "Subsets endpoints"]
  by (auto simp: createEndpoints_def split: prod.splits)

subsection \<open>The slice-based path\<close>

lemma slicePortContributes_selected:
  "slicePortContributes svcPort epPort = Inr b \<Longrightarrow> b = slice_port_selected svcPort epPort"
  by (auto simp: slicePortContributes_def slice_port_selected_def ProtocolTCP_def Let_def
      split: option.splits if_splits)

lemma not_ready_iff: "\<not> slice_endpoint_ready ep \<longleftrightarrow> slice_endpoint_not_ready ep"
  by (cases "de_Ready ep") (auto simp: slice_endpoint_ready_def slice_endpoint_not_ready_def)

lemma sliceEndpoints_emitted:
  "sliceEndpoints cache epPort eps (r, n) = Inr (r', n') \<Longrightarrow>
     map Inr r' = map Inr r @ port_emitted cache slice_endpoint_ready eps epPort
   \<and> map Inr n' = map Inr n @ port_emitted cache slice_endpoint_not_ready eps epPort"
proof (induction eps arbitrary: r n)
  case Nil
  then show ?case by (simp add: port_emitted_def)
next
  case (Cons ep eps)
  from Cons.prems obtain e where e: "domainEndpoint cache epPort ep = Inr e"
    by (cases "domainEndpoint cache epPort ep") auto
  have step: "sliceEndpoints cache epPort (ep # eps) (r, n) =
      (if slice_endpoint_ready ep then sliceEndpoints cache epPort eps (r @ [e], n)
       else sliceEndpoints cache epPort eps (r, n @ [e]))"
    by (simp add: e slice_endpoint_ready_def)
  show ?case
  proof (cases "slice_endpoint_ready ep")
    case True
    then have "sliceEndpoints cache epPort eps (r @ [e], n) = Inr (r', n')"
      using Cons.prems step by simp
    from Cons.IH [OF this] True e show ?thesis
      using not_ready_iff [of ep] by (simp add: port_emitted_def)
  next
    case False
    then have "sliceEndpoints cache epPort eps (r, n @ [e]) = Inr (r', n')"
      using Cons.prems step by simp
    from Cons.IH [OF this] False e show ?thesis
      using not_ready_iff [of ep] by (simp add: port_emitted_def)
  qed
qed

lemma slicePorts_emitted:
  "slicePorts cache svcPort esl ports (r, n) = Inr (r', n') \<Longrightarrow>
     map Inr r' = map Inr r
        @ concat (map (port_emitted cache slice_endpoint_ready (es_Endpoints esl))
                      (filter (slice_port_selected svcPort) ports))
   \<and> map Inr n' = map Inr n
        @ concat (map (port_emitted cache slice_endpoint_not_ready (es_Endpoints esl))
                      (filter (slice_port_selected svcPort) ports))"
proof (induction ports arbitrary: r n)
  case Nil
  then show ?case by simp
next
  case (Cons epPort rest)
  from Cons.prems obtain b where b: "slicePortContributes svcPort epPort = Inr b"
    by (cases "slicePortContributes svcPort epPort") auto
  then have sel: "slice_port_selected svcPort epPort = b"
    using slicePortContributes_selected by simp
  show ?case
  proof (cases b)
    case False
    with Cons.prems b have "slicePorts cache svcPort esl rest (r, n) = Inr (r', n')"
      by simp
    from Cons.IH [OF this] sel False show ?thesis by simp
  next
    case True
    with Cons.prems b obtain r1 n1 where
      inner: "sliceEndpoints cache epPort (es_Endpoints esl) (r, n) = Inr (r1, n1)" and
      rest: "slicePorts cache svcPort esl rest (r1, n1) = Inr (r', n')"
      by (cases "sliceEndpoints cache epPort (es_Endpoints esl) (r, n)") auto
    from sliceEndpoints_emitted [OF inner] Cons.IH [OF rest] sel True show ?thesis
      by simp
  qed
qed

lemma slicesLoop_emitted:
  "slicesLoop cache svcPort slices (r, n) = Inr (r', n') \<Longrightarrow>
     map Inr r' = map Inr r @ slices_emitted cache svcPort slice_endpoint_ready slices
   \<and> map Inr n' = map Inr n @ slices_emitted cache svcPort slice_endpoint_not_ready slices"
proof (induction slices arbitrary: r n)
  case Nil
  then show ?case by (simp add: slices_emitted_def)
next
  case (Cons esl rest)
  from Cons.prems obtain r1 n1 where
    inner: "slicePorts cache svcPort esl (es_Ports esl) (r, n) = Inr (r1, n1)" and
    rest: "slicesLoop cache svcPort rest (r1, n1) = Inr (r', n')"
    by (cases "slicePorts cache svcPort esl (es_Ports esl) (r, n)") auto
  from slicePorts_emitted [OF inner] Cons.IH [OF rest] show ?case
    by (simp add: slices_emitted_def slice_emitted_def)
qed

lemma createEndpointSlices_emitted:
  assumes "createEndpointSlices cache slices svcPort = Inr (ready, notReady, err)"
  shows "err = None"
    and "map Inr ready = slices_emitted cache svcPort slice_endpoint_ready slices"
    and "map Inr notReady = slices_emitted cache svcPort slice_endpoint_not_ready slices"
proof -
  from assms have loop: "slicesLoop cache svcPort slices ([], []) = Inr (ready, notReady)"
    and "err = None"
    by (auto simp: createEndpointSlices_def split: sum.splits)
  then show "err = None" by simp
  from slicesLoop_emitted [OF loop]
  show "map Inr ready = slices_emitted cache svcPort slice_endpoint_ready slices"
    and "map Inr notReady = slices_emitted cache svcPort slice_endpoint_not_ready slices"
    by simp_all
qed

lemma mem_slices_emitted:
  "x \<in> set (slices_emitted cache svcPort keep slices) \<longleftrightarrow>
     (\<exists>esl \<in> set slices. \<exists>epPort \<in> set (es_Ports esl). \<exists>ep \<in> set (es_Endpoints esl).
        slice_port_selected svcPort epPort \<and> keep ep \<and> x = domainEndpoint cache epPort ep)"
  by (auto simp: slices_emitted_def slice_emitted_def port_emitted_def)

lemma domainEndpoint_weight: "domainEndpoint cache epPort ep = Inr e \<Longrightarrow> weight_in_range e"
  using getNodeWeight_range [of cache "de_NodeName ep"]
  by (auto simp: domainEndpoint_def weight_in_range_def split: list.splits option.splits)

lemma slices_emitted_weights:
  assumes "map Inr es = slices_emitted cache svcPort keep slices" and "e \<in> set es"
  shows "weight_in_range e"
proof -
  from assms have "Inr e \<in> set (slices_emitted cache svcPort keep slices)"
    by (metis imageI set_map)
  then obtain epPort ep where "Inr e = domainEndpoint cache epPort ep"
    unfolding mem_slices_emitted by blast
  then show ?thesis using domainEndpoint_weight [of cache epPort ep e] by simp
qed

subsection \<open>The small cluster, resolved\<close>

lemma resolve_web_slices:
  "CreateEndpoints cluster (cluster_service ''web'') (service_port ''http'' 80) True
     = Inr ([\<lparr>IP = ''10.0.0.1'', Port = 8080, Target = ''10.0.0.1:8080'',
               TargetRef = ''default/web-1'', NodeName = Some ''node-b'', Weight = 50\<rparr>],
            [\<lparr>IP = ''10.0.0.2'', Port = 8080, Target = ''10.0.0.2:8080'',
               TargetRef = ''default/web-2'', NodeName = Some ''node-a'', Weight = 100\<rparr>],
            None)"
  by (simp add: CreateEndpoints_def cluster_def cluster_service_def service_port_def
      ServiceTypeExternalName_def createEndpointSlices_def web_slice_def
      slicePortContributes_def ProtocolTCP_def domainEndpoint_def newEndpoint_def
      getNodeWeight_def defaultServerWeight_def node_a_def web_pod_def
      Atoi_def digits_value_def digit_value_def is_digit_def
      Itoa_def decimal.simps digit_char_def sortSlice_def Let_def)

lemma resolve_web_list:
  "CreateEndpoints cluster (cluster_service ''web'') (service_port ''http'' 80) False
     = Inr ([\<lparr>IP = ''10.0.0.1'', Port = 8080, Target = ''10.0.0.1:8080'',
               TargetRef = ''default/web-1'', NodeName = Some ''node-a'', Weight = 100\<rparr>,
             \<lparr>IP = ''10.0.0.2'', Port = 8080, Target = ''10.0.0.2:8080'',
               TargetRef = ''default/web-2'', NodeName = Some ''node-b'', Weight = 50\<rparr>],
            [\<lparr>IP = ''10.0.0.3'', Port = 8080, Target = ''10.0.0.3:8080'',
               TargetRef = ''default/web-3'', NodeName = None, Weight = 0\<rparr>],
            None)"
  by (simp add: CreateEndpoints_def cluster_def cluster_service_def service_port_def
      ServiceTypeExternalName_def createEndpoints_def web_endpoints_def
      matchPort_def ProtocolTCP_def newEndpoint_def
      getNodeWeight_def defaultServerWeight_def node_a_def web_pod_def
      Atoi_def digits_value_def digit_value_def is_digit_def
      Itoa_def decimal.simps digit_char_def sortSlice_def Let_def)

lemma resolve_db:
  "CreateEndpoints cluster (db_service ''db.example.com'') (service_port ''pg'' 5432) False
     = Inr ([\<lparr>IP = ''192.0.2.10'', Port = 5432, Target = ''192.0.2.10:5432'',
               TargetRef = [], NodeName = None, Weight = 0\<rparr>,
             \<lparr>IP = ''192.0.2.20'', Port = 5432, Target = ''192.0.2.20:5432'',
               TargetRef = [], NodeName = None, Weight = 0\<rparr>],
            [], None)"
  by (simp add: CreateEndpoints_def cluster_def db_service_def service_port_def
      ServiceTypeExternalName_def createEndpointsExternalName_def newEndpoint_def
      Itoa_def decimal.simps digit_char_def sortSlice_def Let_def)

lemma resolve_broken:
  "CreateEndpoints cluster (cluster_service ''broken'') (service_port ''http'' 80) True
     = Inl IndexOutOfRange"
  by (simp add: CreateEndpoints_def cluster_def cluster_service_def service_port_def
      ServiceTypeExternalName_def createEndpointSlices_def web_slice_def broken_slice_def
      slicePortContributes_def ProtocolTCP_def domainEndpoint_def Let_def)

subsection \<open>Order and weights of the result\<close>

text \<open>
  Whatever \<^verbatim>\<open>CreateEndpoints\<close> returns, both lists are in ascending order of \<^verbatim>\<open>Target\<close>.
  The weight is looked up for every endpoint of the slice-based path and for the ready
  endpoints of the list-based path, and there it lies between 1 and 127.  The endpoints of
  an external name and the notReady endpoints of the list-based path keep the weight 0
  that \<^verbatim>\<open>newEndpoint\<close> leaves.
\<close>

lemma CreateEndpoints_sorted_weights:
  assumes "CreateEndpoints cache svc svcPort useEndpointSlices = Inr (ready, notReady, err)"
  shows "sorted (map Target ready) \<and> sorted (map Target notReady)
    \<and> (svc_Type svc \<noteq> ''ExternalName'' \<longrightarrow> (\<forall>e \<in> set ready. 1 \<le> Weight e \<and> Weight e \<le> 127))
    \<and> (svc_Type svc \<noteq> ''ExternalName'' \<and> useEndpointSlices
         \<longrightarrow> (\<forall>e \<in> set notReady. 1 \<le> Weight e \<and> Weight e \<le> 127))
    \<and> (svc_Type svc = ''ExternalName'' \<longrightarrow> (\<forall>e \<in> set ready. Weight e = 0))"
proof (cases "svc_Type svc = ServiceTypeExternalName")
  case True
  with assms obtain r where
    r: "createEndpointsExternalName cache svc svcPort = (r, err)" and
    "ready = sortSlice r" and "notReady = []"
    by (auto simp: CreateEndpoints_def sortSlice_Nil split: prod.splits)
  moreover from r have "\<forall>e \<in> set r. Weight e = 0"
    by (auto simp: createEndpointsExternalName_def Let_def newEndpoint_def
        split: if_splits sum.splits)
  ultimately show ?thesis
    using True by (simp add: sorted_sortSlice set_sortSlice ServiceTypeExternalName_def)
next
  case ext: False
  show ?thesis
  proof (cases useEndpointSlices)
    case True
    show ?thesis
    proof (cases "GetEndpointSlices cache svc")
      case (Inl e)
      with ext True assms have "ready = []" "notReady = []"
        by (auto simp: CreateEndpoints_def)
      then show ?thesis using ext by (simp add: ServiceTypeExternalName_def)
    next
      case (Inr slices)
      with ext True assms obtain r n where
        run: "createEndpointSlices cache slices svcPort = Inr (r, n, err)" and
        rn: "ready = sortSlice r" "notReady = sortSlice n"
        by (auto simp: CreateEndpoints_def split: sum.splits)
      have "\<forall>e \<in> set r. weight_in_range e"
        using createEndpointSlices_emitted(2) [OF run] slices_emitted_weights by blast
      moreover have "\<forall>e \<in> set n. weight_in_range e"
        using createEndpointSlices_emitted(3) [OF run] slices_emitted_weights by blast
      ultimately show ?thesis
        using ext rn
        by (simp add: sorted_sortSlice set_sortSlice ServiceTypeExternalName_def
            weight_in_range_def)
    qed
  next
    case False
    show ?thesis
    proof (cases "GetEndpoints cache svc")
      case (Inl e)
      with ext False assms have "ready = []" "notReady = []"
        by (auto simp: CreateEndpoints_def)
      then show ?thesis using ext False by (simp add: ServiceTypeExternalName_def)
    next
      case (Inr endpoints)
      with ext False assms obtain r n where
        run: "createEndpoints cache endpoints svcPort = (r, n, err)" and
        rn: "ready = sortSlice r" "notReady = sortSlice n"
        by (auto simp: CreateEndpoints_def split: prod.splits)
      have "\<forall>e \<in> set r. weight_in_range e"
        using createEndpoints_weights [OF run] by simp
      then show ?thesis
        using ext rn False
        by (simp add: sorted_sortSlice set_sortSlice ServiceTypeExternalName_def
            weight_in_range_def)
    qed
  qed
qed

lemma notReadyAddresses_eq:
  "notReadyAddresses port addrs notReady =
     notReady @ map (\<lambda>addr. newEndpoint (ea_IP addr) port (ea_TargetRef addr)) addrs"
  by (induction addrs arbitrary: notReady) auto

lemma subsetPorts_notReady_unweighed:
  "\<forall>e \<in> set (snd acc). Weight e = 0 \<Longrightarrow>
   \<forall>e \<in> set (snd (subsetPorts cache svcPort sub ports acc)). Weight e = 0"
proof (induction cache svcPort sub ports acc rule: subsetPorts.induct)
  case (1 cache svcPort sub ready notReady)
  then show ?case by simp
next
  case (2 cache svcPort sub epPort rest ready notReady)
  show ?case
  proof (cases "matchPort svcPort epPort")
    case True
    have "\<forall>e \<in> set (notReadyAddresses (sint (epp_Port epPort)) (ss_NotReadyAddresses sub) notReady).
            Weight e = 0"
      using "2.prems" by (auto simp: notReadyAddresses_eq newEndpoint_def)
    with True "2.IH"(1) [OF True refl] show ?thesis by (simp add: Let_def)
  next
    case False
    with "2.IH"(2) "2.prems" show ?thesis by simp
  qed
qed

lemma endpointsSubsets_notReady_unweighed:
  "\<forall>e \<in> set (snd acc). Weight e = 0 \<Longrightarrow>
   \<forall>e \<in> set (snd (endpointsSubsets cache svcPort subsets acc)). Weight e = 0"
proof (induction subsets arbitrary: acc)
  case Nil
  then show ?case by simp
next
  case (Cons sub rest)
  have "\<forall>e \<in> set (snd (subsetPorts cache svcPort sub (ss_Ports sub) acc)). Weight e = 0"
    using Cons.prems by (rule subsetPorts_notReady_unweighed)
  then show ?case using Cons.IH by simp
qed

lemma createEndpoints_notReady_unweighed:
  "createEndpoints cache endpoints svcPort = (ready, notReady, err)
   \<Longrightarrow> \<forall>e \<in> set notReady. Weight e = 0"
  using endpointsSubsets_notReady_unweighed [of "([], [])" cache svcPort "Subsets endpoints"]
  by (auto simp: createEndpoints_def split: prod.splits)

text \<open>
  Claim C2.  The claim asks for a weight between 1 and 127 on every endpoint of both
  lists.  \<^verbatim>\<open>getNodeWeight\<close> answers 50 for an endpoint without a node and takes a value
  outside 1 to 127 for invalid, and the slice-based path calls it for ready and notReady
  endpoints alike.  The path of the external names and the notReady loop of the list-based
  path do not call it.  Here the code is run on both: the two addresses of the external
  name \<^verbatim>\<open>db.example.com\<close> come back ready, in ascending order, with the weight 0, and the
  address of the service \<^verbatim>\<open>web\<close> that is not ready comes back with the weight 0 beside
  two ready ones, sorted, that are weighed.
\<close>

theorem CreateEndpoints_unweighed_endpoints:
  "CreateEndpoints cluster (db_service ''db.example.com'') (service_port ''pg'' 5432) False
     = Inr ([\<lparr>IP = ''192.0.2.10'', Port = 5432, Target = ''192.0.2.10:5432'',
               TargetRef = [], NodeName = None, Weight = 0\<rparr>,
             \<lparr>IP = ''192.0.2.20'', Port = 5432, Target = ''192.0.2.20:5432'',
               TargetRef = [], NodeName = None, Weight = 0\<rparr>],
            [], None)
   \<and> \<not> weight_in_range \<lparr>IP = ''192.0.2.10'', Port = 5432, Target = ''192.0.2.10:5432'',
               TargetRef = [], NodeName = None, Weight = 0\<rparr>
   \<and> CreateEndpoints cluster (cluster_service ''web'') (service_port ''http'' 80) False
     = Inr ([\<lparr>IP = ''10.0.0.1'', Port = 8080, Target = ''10.0.0.1:8080'',
               TargetRef = ''default/web-1'', NodeName = Some ''node-a'', Weight = 100\<rparr>,
             \<lparr>IP = ''10.0.0.2'', Port = 8080, Target = ''10.0.0.2:8080'',
               TargetRef = ''default/web-2'', NodeName = Some ''node-b'', Weight = 50\<rparr>],
            [\<lparr>IP = ''10.0.0.3'', Port = 8080, Target = ''10.0.0.3:8080'',
               TargetRef = ''default/web-3'', NodeName = None, Weight = 0\<rparr>],
            None)
   \<and> \<not> weight_in_range \<lparr>IP = ''10.0.0.3'', Port = 8080, Target = ''10.0.0.3:8080'',
               TargetRef = ''default/web-3'', NodeName = None, Weight = 0\<rparr>"
  using resolve_db resolve_web_list by (simp add: weight_in_range_def)

subsection \<open>Selection and readiness on the slice-based path\<close>

lemma slicePortContributes_readable:
  "(\<exists>b. slicePortContributes svcPort epPort = Inr b) \<longleftrightarrow> slice_port_readable svcPort epPort"
  by (auto simp: slicePortContributes_def slice_port_readable_def ProtocolTCP_def Let_def
      split: option.splits if_splits)

lemma domainEndpoint_readable:
  "(\<exists>e. domainEndpoint cache epPort ep = Inr e) \<longleftrightarrow> slice_endpoint_readable epPort ep"
  by (auto simp: domainEndpoint_def slice_endpoint_readable_def split: list.splits option.splits)

lemma sliceEndpoints_returns:
  "(\<exists>res. sliceEndpoints cache epPort eps acc = Inr res)
     \<longleftrightarrow> (\<forall>ep \<in> set eps. slice_endpoint_readable epPort ep)"
proof (induction eps arbitrary: acc)
  case Nil
  then show ?case by (cases acc) simp
next
  case (Cons ep eps)
  obtain r n where acc: "acc = (r, n)" by (cases acc) auto
  show ?case
  proof (cases "domainEndpoint cache epPort ep")
    case (Inl p)
    then have "\<not> slice_endpoint_readable epPort ep"
      using domainEndpoint_readable [of cache epPort ep] by simp
    with Inl acc show ?thesis by simp
  next
    case (Inr e)
    then have "slice_endpoint_readable epPort ep"
      using domainEndpoint_readable [of cache epPort ep] by simp
    with Inr acc Cons.IH [of "(r @ [e], n)"] Cons.IH [of "(r, n @ [e])"] show ?thesis
      by simp
  qed
qed

lemma slicePorts_returns:
  "(\<exists>res. slicePorts cache svcPort esl ports acc = Inr res)
     \<longleftrightarrow> (\<forall>epPort \<in> set ports.
            slice_port_readable svcPort epPort
            \<and> (slice_port_selected svcPort epPort \<longrightarrow>
                 (\<forall>ep \<in> set (es_Endpoints esl). slice_endpoint_readable epPort ep)))"
proof (induction ports arbitrary: acc)
  case Nil
  then show ?case by simp
next
  case (Cons epPort rest)
  show ?case
  proof (cases "slicePortContributes svcPort epPort")
    case (Inl p)
    then have "\<not> slice_port_readable svcPort epPort"
      using slicePortContributes_readable [of svcPort epPort] by simp
    with Inl show ?thesis by simp
  next
    case (Inr b)
    then have rd: "slice_port_readable svcPort epPort"
      using slicePortContributes_readable [of svcPort epPort] by auto
    have sel: "slice_port_selected svcPort epPort = b"
      using slicePortContributes_selected [OF Inr] by simp
    show ?thesis
    proof (cases b)
      case False
      with Inr rd sel Cons.IH [of acc] show ?thesis by simp
    next
      case True
      show ?thesis
      proof (cases "sliceEndpoints cache epPort (es_Endpoints esl) acc")
        case (Inl p)
        then have "\<not> (\<forall>ep \<in> set (es_Endpoints esl). slice_endpoint_readable epPort ep)"
          using sliceEndpoints_returns [of cache epPort "es_Endpoints esl" acc] by simp
        with Inl Inr True sel show ?thesis by auto
      next
        case inner: (Inr acc')
        then have "\<forall>ep \<in> set (es_Endpoints esl). slice_endpoint_readable epPort ep"
          using sliceEndpoints_returns [of cache epPort "es_Endpoints esl" acc] by auto
        with inner Inr True sel rd Cons.IH [of acc'] show ?thesis by simp
      qed
    qed
  qed
qed

lemma slicesLoop_returns:
  "(\<exists>res. slicesLoop cache svcPort slices acc = Inr res) \<longleftrightarrow> slices_readable svcPort slices"
proof (induction slices arbitrary: acc)
  case Nil
  then show ?case by (simp add: slices_readable_def)
next
  case (Cons esl rest)
  show ?case
  proof (cases "slicePorts cache svcPort esl (es_Ports esl) acc")
    case (Inl p)
    then have "\<not> slice_readable svcPort esl"
      using slicePorts_returns [of cache svcPort esl "es_Ports esl" acc]
      by (simp add: slice_readable_def)
    with Inl show ?thesis by (simp add: slices_readable_def)
  next
    case (Inr acc')
    then have "slice_readable svcPort esl"
      using slicePorts_returns [of cache svcPort esl "es_Ports esl" acc]
      by (auto simp: slice_readable_def)
    with Inr Cons.IH [of acc'] show ?thesis by (simp add: slices_readable_def)
  qed
qed

lemma createEndpointSlices_returns:
  "(\<exists>ready notReady. createEndpointSlices cache slices svcPort = Inr (ready, notReady, None))
     \<longleftrightarrow> slices_readable svcPort slices"
  using slicesLoop_returns [of cache svcPort slices "([], [])"]
  by (auto simp: createEndpointSlices_def split: sum.splits)

text \<open>
  Claim C7.  \<^verbatim>\<open>createEndpointSlices\<close> returns exactly on readable slices, and then without
  an error.  When it returns, its ready list is, in order, what the ready entries of the
  selected ports give, and its notReady list what the entries with the flag present and
  false give.  So every endpoint returned comes from a port whose protocol is that of the
  service port (TCP when it names none) and whose name is the service port's when it has
  one; an entry whose flag is absent or true goes to the ready list, and only an entry
  whose flag is present and false goes to the other.
\<close>

theorem createEndpointSlices_selection:
  "((\<exists>ready notReady. createEndpointSlices cache endpointSlices svcPort = Inr (ready, notReady, None))
      \<longleftrightarrow> slices_readable svcPort endpointSlices)
   \<and> (createEndpointSlices cache endpointSlices svcPort = Inr (ready, notReady, err) \<longrightarrow>
        map Inr ready = slices_emitted cache svcPort slice_endpoint_ready endpointSlices
      \<and> map Inr notReady = slices_emitted cache svcPort slice_endpoint_not_ready endpointSlices
      \<and> (\<forall>e \<in> set ready \<union> set notReady.
            \<exists>esl \<in> set endpointSlices. \<exists>epPort \<in> set (es_Ports esl). \<exists>ep \<in> set (es_Endpoints esl).
              slice_port_selected svcPort epPort \<and> domainEndpoint cache epPort ep = Inr e)
      \<and> err = None)
   \<and> (slice_endpoint_ready ep \<longleftrightarrow> de_Ready ep \<noteq> Some False)
   \<and> (slice_endpoint_not_ready ep \<longleftrightarrow> de_Ready ep = Some False)"
proof -
  have sel: "map Inr ready = slices_emitted cache svcPort slice_endpoint_ready endpointSlices
      \<and> map Inr notReady = slices_emitted cache svcPort slice_endpoint_not_ready endpointSlices
      \<and> (\<forall>e \<in> set ready \<union> set notReady.
            \<exists>esl \<in> set endpointSlices. \<exists>epPort \<in> set (es_Ports esl). \<exists>ep \<in> set (es_Endpoints esl).
              slice_port_selected svcPort epPort \<and> domainEndpoint cache epPort ep = Inr e)
      \<and> err = None"
    if run: "createEndpointSlices cache endpointSlices svcPort = Inr (ready, notReady, err)"
  proof -
    note em = createEndpointSlices_emitted [OF run]
    have "\<exists>esl \<in> set endpointSlices. \<exists>epPort \<in> set (es_Ports esl). \<exists>ep \<in> set (es_Endpoints esl).
              slice_port_selected svcPort epPort \<and> domainEndpoint cache epPort ep = Inr e"
      if "e \<in> set ready \<union> set notReady" for e
    proof -
      from that em(2,3) obtain keep where
        "Inr e \<in> set (slices_emitted cache svcPort keep endpointSlices)"
        by (metis Un_iff imageI set_map)
      then show ?thesis unfolding mem_slices_emitted by metis
    qed
    with em show ?thesis by simp
  qed
  have "slice_endpoint_ready ep \<longleftrightarrow> de_Ready ep \<noteq> Some False"
    using not_ready_iff [of ep] by (auto simp: slice_endpoint_not_ready_def)
  with sel createEndpointSlices_returns [of cache endpointSlices svcPort] show ?thesis
    by (simp add: slice_endpoint_not_ready_def)
qed

theorem createEndpointSlices_selection_witness:
  "slices_readable (service_port ''http'' 80) [web_slice]
   \<and> createEndpointSlices cluster [web_slice] (service_port ''http'' 80)
     = Inr ([\<lparr>IP = ''10.0.0.1'', Port = 8080, Target = ''10.0.0.1:8080'',
               TargetRef = ''default/web-1'', NodeName = Some ''node-b'', Weight = 50\<rparr>],
            [\<lparr>IP = ''10.0.0.2'', Port = 8080, Target = ''10.0.0.2:8080'',
               TargetRef = ''default/web-2'', NodeName = Some ''node-a'', Weight = 100\<rparr>],
            None)"
proof -
  let ?P = "service_port ''http'' 80"
  have rd: "slices_readable ?P [web_slice]"
    by (simp add: slices_readable_def slice_readable_def slice_port_readable_def
        slice_endpoint_readable_def slice_port_selected_def web_slice_def service_port_def)
  with createEndpointSlices_selection [of cluster "[web_slice]" ?P]
  obtain ready notReady where
    run: "createEndpointSlices cluster [web_slice] ?P = Inr (ready, notReady, None)"
    by blast
  have r: "slices_emitted cluster ?P slice_endpoint_ready [web_slice]
      = [Inr \<lparr>IP = ''10.0.0.1'', Port = 8080, Target = ''10.0.0.1:8080'',
               TargetRef = ''default/web-1'', NodeName = Some ''node-b'', Weight = 50\<rparr>]"
    by (simp add: slices_emitted_def slice_emitted_def port_emitted_def slice_port_selected_def
        slice_endpoint_ready_def web_slice_def service_port_def cluster_def domainEndpoint_def
        newEndpoint_def getNodeWeight_def defaultServerWeight_def web_pod_def
        Itoa_def decimal.simps digit_char_def)
  have n: "slices_emitted cluster ?P slice_endpoint_not_ready [web_slice]
      = [Inr \<lparr>IP = ''10.0.0.2'', Port = 8080, Target = ''10.0.0.2:8080'',
               TargetRef = ''default/web-2'', NodeName = Some ''node-a'', Weight = 100\<rparr>]"
    by (simp add: slices_emitted_def slice_emitted_def port_emitted_def slice_port_selected_def
        slice_endpoint_not_ready_def web_slice_def service_port_def cluster_def domainEndpoint_def
        newEndpoint_def getNodeWeight_def defaultServerWeight_def web_pod_def node_a_def
        Atoi_def digits_value_def digit_value_def is_digit_def
        Itoa_def decimal.simps digit_char_def)
  from createEndpointSlices_selection [of cluster "[web_slice]" ?P ready notReady None] run r n
  have "ready = [\<lparr>IP = ''10.0.0.1'', Port = 8080, Target = ''10.0.0.1:8080'',
               TargetRef = ''default/web-1'', NodeName = Some ''node-b'', Weight = 50\<rparr>]"
    and "notReady = [\<lparr>IP = ''10.0.0.2'', Port = 8080, Target = ''10.0.0.2:8080'',
               TargetRef = ''default/web-2'', NodeName = Some ''node-a'', Weight = 100\<rparr>]"
    by (auto simp: map_eq_Cons_conv)
  with run rd show ?thesis by simp
qed

text \<open>
  Scenario D of the specification: of two entries of a slice, the one marked not ready
  goes to \<^verbatim>\<open>notReady\<close> and the one without the flag to \<^verbatim>\<open>ready\<close>.
\<close>

lemma scenario_D:
  "createEndpointSlices cluster [web_slice] (service_port ''http'' 80)
     = Inr ([\<lparr>IP = ''10.0.0.1'', Port = 8080, Target = ''10.0.0.1:8080'',
               TargetRef = ''default/web-1'', NodeName = Some ''node-b'', Weight = 50\<rparr>],
            [\<lparr>IP = ''10.0.0.2'', Port = 8080, Target = ''10.0.0.2:8080'',
               TargetRef = ''default/web-2'', NodeName = Some ''node-a'', Weight = 100\<rparr>],
            None)"
  by (simp add: cluster_def service_port_def createEndpointSlices_def web_slice_def
      slicePortContributes_def ProtocolTCP_def domainEndpoint_def newEndpoint_def
      getNodeWeight_def defaultServerWeight_def node_a_def web_pod_def
      Atoi_def digits_value_def digit_value_def is_digit_def
      Itoa_def decimal.simps digit_char_def Let_def)

subsection \<open>An entry without addresses\<close>

text \<open>
  Claim C10.  \<^verbatim>\<open>createEndpointSlices\<close> reads \<^verbatim>\<open>endpoint.Addresses[0]\<close> without a check.
  When a slice has a selected port and an entry whose list of addresses is empty, the call
  does not return: it panics (at that read with the index out of range, unless a nil
  pointer of an earlier port or entry was met first), and so does \<^verbatim>\<open>CreateEndpoints\<close> on the
  slice-based path.
\<close>

theorem createEndpointSlices_empty_addresses_panics:
  assumes "esl \<in> set endpointSlices"
    and "epPort \<in> set (es_Ports esl)"
    and "slice_port_selected svcPort epPort"
    and "ep \<in> set (es_Endpoints esl)"
    and "de_Addresses ep = []"
  shows "domainEndpoint cache epPort ep = Inl IndexOutOfRange
    \<and> (\<exists>p. createEndpointSlices cache endpointSlices svcPort = Inl p)
    \<and> (svc_Type svc \<noteq> ''ExternalName'' \<and> GetEndpointSlices cache svc = Inr endpointSlices
         \<longrightarrow> (\<exists>p. CreateEndpoints cache svc svcPort True = Inl p))"
proof -
  have dom: "domainEndpoint cache epPort ep = Inl IndexOutOfRange"
    using assms(5) by (simp add: domainEndpoint_def)
  have panics: "\<exists>p. createEndpointSlices cache endpointSlices svcPort = Inl p"
  proof (cases "createEndpointSlices cache endpointSlices svcPort")
    case (Inl p)
    then show ?thesis by simp
  next
    case (Inr res)
    obtain ready notReady err where res: "res = (ready, notReady, err)"
      by (cases res) auto
    note em = createEndpointSlices_emitted [OF Inr [unfolded res]]
    define keep where
      "keep = (if slice_endpoint_ready ep then slice_endpoint_ready else slice_endpoint_not_ready)"
    have "keep ep"
      using not_ready_iff [of ep] by (simp add: keep_def)
    then have "Inl IndexOutOfRange \<in> set (slices_emitted cache svcPort keep endpointSlices)"
      unfolding mem_slices_emitted using assms(1-4) dom by metis
    moreover have "\<exists>es. map Inr es = slices_emitted cache svcPort keep endpointSlices"
      using em(2,3) by (auto simp: keep_def)
    ultimately show ?thesis by (metis Inl_Inr_False imageE set_map)
  qed
  then have "\<exists>p. CreateEndpoints cache svc svcPort True = Inl p"
    if "svc_Type svc \<noteq> ''ExternalName''" "GetEndpointSlices cache svc = Inr endpointSlices"
    using that by (auto simp: CreateEndpoints_def ServiceTypeExternalName_def)
  with dom panics show ?thesis by simp
qed

theorem createEndpointSlices_empty_addresses_panics_witness:
  "broken_slice \<in> set [web_slice, broken_slice]
   \<and> de_Addresses (hd (es_Endpoints broken_slice)) = []
   \<and> (\<exists>p. createEndpointSlices cluster [web_slice, broken_slice] (service_port ''http'' 80) = Inl p)
   \<and> (\<exists>p. CreateEndpoints cluster (cluster_service ''broken'') (service_port ''http'' 80) True = Inl p)"
  using createEndpointSlices_empty_addresses_panics [where esl = broken_slice
      and endpointSlices = "[web_slice, broken_slice]" and epPort = "hd (es_Ports broken_slice)"
      and svcPort = "service_port ''http'' 80" and ep = "hd (es_Endpoints broken_slice)"
      and svc = "cluster_service ''broken''" and cache = cluster]
  by (simp add: broken_slice_def slice_port_selected_def service_port_def cluster_service_def
      cluster_def)

subsection \<open>External names\<close>

lemma createEndpointsExternalName_invalid_port:
  "sint (sp_Port svcPort) \<le> 0 \<Longrightarrow>
   createEndpointsExternalName cache svc svcPort = ([], Some (ErrInvalidPort (sint (sp_Port svcPort))))"
  by (simp add: createEndpointsExternalName_def)

lemma CreateEndpoints_ExternalName_eq:
  "svc_Type svc = ''ExternalName'' \<Longrightarrow>
   CreateEndpoints cache svc svcPort useEndpointSlices =
     Inr (sortSlice (fst (createEndpointsExternalName cache svc svcPort)), [],
          snd (createEndpointsExternalName cache svc svcPort))"
  by (simp add: CreateEndpoints_def ServiceTypeExternalName_def sortSlice_Nil split: prod.splits)

text \<open>
  Claim C8.  For a service of type \<^verbatim>\<open>ExternalName\<close>: when the declared port is zero or
  negative the result is the error of the invalid port, whatever the cache is, so the
  lookup has no part in it; when the port is positive and the lookup gives addresses, the
  ready list is a rearrangement of one endpoint per address, as many endpoints as
  addresses, each with the declared port; and on every path the call returns with an empty
  notReady list.
\<close>

theorem CreateEndpoints_ExternalName:
  assumes "svc_Type svc = ''ExternalName''"
  shows "(sint (sp_Port svcPort) \<le> 0 \<longrightarrow>
            (\<forall>cache'. CreateEndpoints cache' svc svcPort useEndpointSlices
               = Inr ([], [], Some (ErrInvalidPort (sint (sp_Port svcPort))))))
    \<and> (0 < sint (sp_Port svcPort) \<and> ExternalNameLookup cache (svc_ExternalName svc) = Inr addr \<longrightarrow>
          (\<exists>ready. CreateEndpoints cache svc svcPort useEndpointSlices = Inr (ready, [], None)
             \<and> mset ready = mset (map (\<lambda>ip. newEndpoint ip (sint (sp_Port svcPort)) None) addr)
             \<and> length ready = length addr
             \<and> mset (map IP ready) = mset addr
             \<and> (\<forall>e \<in> set ready. Port e = sint (sp_Port svcPort))))
    \<and> (\<exists>ready err. CreateEndpoints cache svc svcPort useEndpointSlices = Inr (ready, [], err))"
proof -
  note eq = CreateEndpoints_ExternalName_eq [OF assms, of _ svcPort useEndpointSlices]
  have a: "CreateEndpoints cache' svc svcPort useEndpointSlices
               = Inr ([], [], Some (ErrInvalidPort (sint (sp_Port svcPort))))"
    if "sint (sp_Port svcPort) \<le> 0" for cache'
    using that by (simp add: eq createEndpointsExternalName_invalid_port sortSlice_Nil)
  have b: "\<exists>ready. CreateEndpoints cache svc svcPort useEndpointSlices = Inr (ready, [], None)
             \<and> mset ready = mset (map (\<lambda>ip. newEndpoint ip (sint (sp_Port svcPort)) None) addr)
             \<and> length ready = length addr
             \<and> mset (map IP ready) = mset addr
             \<and> (\<forall>e \<in> set ready. Port e = sint (sp_Port svcPort))"
    if pos: "0 < sint (sp_Port svcPort)"
      and look: "ExternalNameLookup cache (svc_ExternalName svc) = Inr addr"
  proof -
    let ?es = "map (\<lambda>ip. newEndpoint ip (sint (sp_Port svcPort)) None) addr"
    have ext: "createEndpointsExternalName cache svc svcPort = (?es, None)"
      using pos look by (simp add: createEndpointsExternalName_def)
    have ips: "map IP ?es = addr"
      by (induction addr) (simp_all add: newEndpoint_def)
    have "mset (map IP (sortSlice ?es)) = mset (map IP ?es)"
      using mset_sortSlice [of ?es] by (metis mset_map)
    with ips have "mset (map IP (sortSlice ?es)) = mset addr"
      by simp
    moreover have "\<forall>e \<in> set (sortSlice ?es). Port e = sint (sp_Port svcPort)"
      by (auto simp: set_sortSlice newEndpoint_def)
    ultimately show ?thesis
      by (simp add: eq ext mset_sortSlice length_sortSlice)
  qed
  have c: "\<exists>ready err. CreateEndpoints cache svc svcPort useEndpointSlices = Inr (ready, [], err)"
    by (simp add: eq)
  from a b c show ?thesis by blast
qed

theorem CreateEndpoints_ExternalName_witness:
  "CreateEndpoints cluster (db_service ''db.example.com'') (service_port ''pg'' 0) True
     = Inr ([], [], Some (ErrInvalidPort 0))
   \<and> (\<exists>ready. CreateEndpoints cluster (db_service ''db.example.com'') (service_port ''pg'' 5432) True
                 = Inr (ready, [], None)
        \<and> mset (map IP ready) = {#''192.0.2.20'', ''192.0.2.10''#}
        \<and> (\<forall>e \<in> set ready. Port e = 5432))"
proof -
  have "CreateEndpoints cluster (db_service ''db.example.com'') (service_port ''pg'' 0) True
     = Inr ([], [], Some (ErrInvalidPort 0))"
    using CreateEndpoints_ExternalName [of "db_service ''db.example.com''" "service_port ''pg'' 0"
        True cluster "[]"]
    by (simp add: db_service_def service_port_def)
  moreover have "\<exists>ready. CreateEndpoints cluster (db_service ''db.example.com'') (service_port ''pg'' 5432) True
                 = Inr (ready, [], None)
        \<and> mset (map IP ready) = {#''192.0.2.20'', ''192.0.2.10''#}
        \<and> (\<forall>e \<in> set ready. Port e = 5432)"
  proof -
    have ty: "svc_Type (db_service ''db.example.com'') = ''ExternalName''"
      by (simp add: db_service_def)
    have pos: "0 < sint (sp_Port (service_port ''pg'' 5432))"
      and port: "sint (sp_Port (service_port ''pg'' 5432)) = 5432"
      by (simp_all add: service_port_def)
    have look: "ExternalNameLookup cluster (svc_ExternalName (db_service ''db.example.com''))
        = Inr [''192.0.2.20'', ''192.0.2.10'']"
      by (simp add: cluster_def db_service_def)
    from CreateEndpoints_ExternalName [OF ty, of "service_port ''pg'' 5432" True cluster
        "[''192.0.2.20'', ''192.0.2.10'']"] pos look
    obtain ready where
      "CreateEndpoints cluster (db_service ''db.example.com'') (service_port ''pg'' 5432) True
         = Inr (ready, [], None)"
      "mset (map IP ready) = mset [''192.0.2.20'', ''192.0.2.10'']"
      "\<forall>e \<in> set ready. Port e = sint (sp_Port (service_port ''pg'' 5432))"
      by blast
    then show ?thesis unfolding port by auto
  qed
  ultimately show ?thesis by simp
qed

subsection \<open>Failures of the lookups\<close>




end
